theory Spec2Isabelle
  imports Main
begin

section \<open>Python values and strings\<close>

text \<open>
  The values that flow through the courtroom simulation are the ones \<open>json.load\<close> and
  the literals of \<open>create_courtroom_agents\<close> produce: \<open>None\<close>, booleans, integers,
  strings, lists and dictionaries.  A dictionary keeps its insertion order, so it is an
  association list with distinct keys; \<open>map_of\<close> looks a key up.
\<close>

datatype pyval =
    PNone
  | PBool bool
  | PInt int
  | PStr string
  | PList "pyval list"
  | PDict "(string \<times> pyval) list"

datatype error =
    KeyError string
  | TypeError
  | AttributeError
  | IndexError
  | ValueError string
  | Exception string
  | ConnectionClosed
  | JSONDecodeError string

text \<open>\<open>d.get(key, default)\<close>; only a dictionary has the method.\<close>

fun dict_get :: "pyval \<Rightarrow> string \<Rightarrow> pyval \<Rightarrow> error + pyval" where
  "dict_get (PDict kvs) k d = Inr (case map_of kvs k of None \<Rightarrow> d | Some v \<Rightarrow> v)"
| "dict_get _ k d = Inl AttributeError"

text \<open>\<open>x[key]\<close> with a string key: a missing key raises KeyError, and a value that is
  not a dictionary raises TypeError.\<close>

fun subscript :: "pyval \<Rightarrow> string \<Rightarrow> error + pyval" where
  "subscript (PDict kvs) k = (case map_of kvs k of None \<Rightarrow> Inl (KeyError k) | Some v \<Rightarrow> Inr v)"
| "subscript _ k = Inl TypeError"

text \<open>\<open>d[key] = value\<close> on an insertion-ordered dictionary.\<close>

fun dict_set :: "(string \<times> pyval) list \<Rightarrow> string \<Rightarrow> pyval \<Rightarrow> (string \<times> pyval) list" where
  "dict_set [] k v = [(k, v)]"
| "dict_set ((k', v') # kvs) k v = (if k' = k then (k, v) # kvs else (k', v') # dict_set kvs k v)"

definition newline :: string where
  "newline = [CHR 0x0A]"

definition digit_char :: "nat \<Rightarrow> char" where
  "digit_char d = char_of (48 + d)"

fun digits :: "nat \<Rightarrow> string" where
  "digits n = (if n < 10 then [digit_char n] else digits (n div 10) @ [digit_char (n mod 10)])"

definition str_int :: "int \<Rightarrow> string" where
  "str_int i = (if i < 0 then CHR ''-'' # digits (nat (- i)) else digits (nat i))"

definition hex_char :: "nat \<Rightarrow> char" where
  "hex_char d = (if d < 10 then char_of (48 + d) else char_of (87 + d))"

text \<open>\<open>repr\<close> of a string: single quotes unless the string has a single quote and no
  double quote; backslash, the chosen quote, tab, newline and carriage return are
  escaped, and the other unprintable characters are written \<open>\xNN\<close>.\<close>

definition printable :: "char \<Rightarrow> bool" where
  "printable c = (let n = (of_char c :: nat) in \<not> (n < 32 \<or> (127 \<le> n \<and> n \<le> 160) \<or> n = 173))"

definition repr_char :: "char \<Rightarrow> char \<Rightarrow> string" where
  "repr_char q c =
     (if c = CHR 0x5C then [CHR 0x5C, CHR 0x5C]
      else if c = q then [CHR 0x5C, q]
      else if c = CHR 0x09 then [CHR 0x5C, CHR ''t'']
      else if c = CHR 0x0A then [CHR 0x5C, CHR ''n'']
      else if c = CHR 0x0D then [CHR 0x5C, CHR ''r'']
      else if printable c then [c]
      else [CHR 0x5C, CHR ''x'', hex_char ((of_char c :: nat) div 16), hex_char ((of_char c :: nat) mod 16)])"

definition repr_str :: "string \<Rightarrow> string" where
  "repr_str s =
     (let q = (if CHR 0x27 \<in> set s \<and> CHR 0x22 \<notin> set s then CHR 0x22 else CHR 0x27)
      in q # concat (map (repr_char q) s) @ [q])"

fun join :: "string \<Rightarrow> string list \<Rightarrow> string" where
  "join sep [] = []"
| "join sep [x] = x"
| "join sep (x # y # ys) = x @ sep @ join sep (y # ys)"

fun repr :: "pyval \<Rightarrow> string" where
  "repr PNone = ''None''"
| "repr (PBool b) = (if b then ''True'' else ''False'')"
| "repr (PInt i) = str_int i"
| "repr (PStr s) = repr_str s"
| "repr (PList xs) = ''['' @ join '', '' (map repr xs) @ '']''"
| "repr (PDict kvs) = ''{'' @ join '', '' (map (\<lambda>kv. repr_str (fst kv) @ '': '' @ repr (snd kv)) kvs) @ ''}''"

text \<open>\<open>str(x)\<close>, which an f-string applies to each field: a string is itself, anything
  else is its \<open>repr\<close>.\<close>

fun str :: "pyval \<Rightarrow> string" where
  "str (PStr s) = s"
| "str v = repr v"

text \<open>\<open>s.strip()\<close> and \<open>s.lower()\<close> on code points below 256.\<close>

definition isspace :: "char \<Rightarrow> bool" where
  "isspace c = (let n = (of_char c :: nat) in (9 \<le> n \<and> n \<le> 13) \<or> (28 \<le> n \<and> n \<le> 32) \<or> n = 133 \<or> n = 160)"

definition strip :: "string \<Rightarrow> string" where
  "strip s = rev (dropWhile isspace (rev (dropWhile isspace s)))"

definition lower_char :: "char \<Rightarrow> char" where
  "lower_char c = (let n = (of_char c :: nat) in if 65 \<le> n \<and> n \<le> 90 then char_of (n + 32) else c)"

definition lower :: "string \<Rightarrow> string" where
  "lower s = map lower_char s"

section \<open>llm\_engine.py: the generation backend\<close>

text \<open>
  The request to the generation service is outside the program.  Its outcome is a
  parameter of the model: \<open>backend n prompt\<close> is what the \<open>n\<close>-th request of the session
  does with \<open>prompt\<close>: it answers with a text, raises a
  \<open>requests.exceptions.RequestException\<close>, or raises another \<open>Exception\<close>; an exception
  is given by its message.
\<close>

datatype reply = Reply string | RequestException string | OtherException string

type_synonym backend = "nat \<Rightarrow> string \<Rightarrow> reply"

datatype LLMProvider = OpenAIProvider string | OllamaProvider string

text \<open>\<open>OpenAIProvider.generate\<close> and \<open>OllamaProvider.generate\<close>: every exception of the
  request is caught and becomes the returned text.\<close>

fun generate :: "LLMProvider \<Rightarrow> reply \<Rightarrow> string" where
  "generate (OpenAIProvider key) (Reply t) = strip t"
| "generate (OpenAIProvider key) (RequestException e) = ''Error generating text with OpenAI: '' @ e"
| "generate (OpenAIProvider key) (OtherException e) = ''Error generating text with OpenAI: '' @ e"
| "generate (OllamaProvider host) (Reply t) = strip t"
| "generate (OllamaProvider host) (RequestException e) = ''Error communicating with Ollama: '' @ e"
| "generate (OllamaProvider host) (OtherException e) = ''Error generating text with Ollama: '' @ e"

text \<open>\<open>get_llm_provider(provider_name)\<close> with no keyword arguments; \<open>env_key\<close> is the
  value of the environment variable \<open>OPENAI_API_KEY\<close>.\<close>

definition get_llm_provider :: "string option \<Rightarrow> string \<Rightarrow> error + LLMProvider" where
  "get_llm_provider env_key provider_name =
     (if lower provider_name = ''openai'' then
        (case env_key of
           None \<Rightarrow> Inl (ValueError ''OpenAI API key not provided. Set the OPENAI_API_KEY environment variable.'')
         | Some k \<Rightarrow>
             if k = [] then Inl (ValueError ''OpenAI API key not provided. Set the OPENAI_API_KEY environment variable.'')
             else Inr (OpenAIProvider k))
      else if lower provider_name = ''ollama'' then Inr (OllamaProvider ''http://localhost:11434'')
      else Inl (ValueError (''Unknown LLM provider: '' @ provider_name)))"

section \<open>tinytroupe/agent.py: TinyPerson\<close>

record TinyPerson =
  persona :: "(string \<times> pyval) list"
  memory :: "string list"
  llm_provider :: LLMProvider
  is_user_controlled :: bool

definition TinyPerson_init :: "string option \<Rightarrow> pyval \<Rightarrow> string \<Rightarrow> error + TinyPerson" where
  "TinyPerson_init env_key name provider_name =
     (case get_llm_provider env_key provider_name of
        Inl e \<Rightarrow> Inl e
      | Inr p \<Rightarrow> Inr \<lparr>persona = [(''name'', name)], memory = [], llm_provider = p,
                     is_user_controlled = False\<rparr>)"

definition define_p :: "string \<Rightarrow> pyval \<Rightarrow> TinyPerson \<Rightarrow> TinyPerson" where
  "define_p key val a = a\<lparr>persona := dict_set (persona a) key val\<rparr>"

text \<open>\<open>listen\<close> prints \<open>self.persona['name']\<close> before it appends, so a persona without
  a name raises KeyError and nothing is appended.\<close>

definition listen :: "string \<Rightarrow> TinyPerson \<Rightarrow> error + TinyPerson" where
  "listen message a =
     (case map_of (persona a) ''name'' of
        None \<Rightarrow> Inl (KeyError ''name'')
      | Some n \<Rightarrow> Inr (a\<lparr>memory := memory a @ [''Heard: '' @ message]\<rparr>))"

definition persona_desc :: "pyval \<Rightarrow> (string \<times> pyval) list \<Rightarrow> string" where
  "persona_desc n kvs =
     ''You are '' @ str n @ ''. '' @
     concat (map (\<lambda>kv. ''Your '' @ fst kv @ '' is '' @ str (snd kv) @ ''. '')
                 (filter (\<lambda>kv. fst kv \<noteq> ''name'') kvs))"

definition build_prompt :: "TinyPerson \<Rightarrow> error + string" where
  "build_prompt a =
     (case map_of (persona a) ''name'' of
        None \<Rightarrow> Inl (KeyError ''name'')
      | Some n \<Rightarrow>
          Inr (persona_desc n (persona a) @ newline @ newline @ ''Recent conversation:'' @ newline @
               join newline (drop (length (memory a) - 5) (memory a)) @
               newline @ newline @ ''What do you say or do next?''))"

text \<open>
  \<open>act\<close>.  The state it works on is the participant together with the log of the
  prompts sent to the generation service so far; the result is the returned text with
  the new participant and log, or the exception raised.
\<close>

definition act :: "backend \<Rightarrow> TinyPerson \<Rightarrow> string list \<Rightarrow> error + (string \<times> TinyPerson \<times> string list)" where
  "act be a calls =
     (if is_user_controlled a then
        (if memory a = [] then Inl IndexError else Inr (last (memory a), a, calls))
      else
        (case build_prompt a of
           Inl e \<Rightarrow> Inl e
         | Inr prompt \<Rightarrow>
             (let response = generate (llm_provider a) (be (length calls) prompt)
              in Inr (response, a\<lparr>memory := memory a @ [''Said: '' @ response]\<rparr>, calls @ [prompt]))))"

section \<open>case\_manager.py\<close>

record Case =
  case_number :: pyval
  title :: pyval
  summary :: pyval
  legal_system :: pyval
  plaintiff :: pyval
  defendant :: pyval
  evidence :: pyval
  witnesses :: pyval

definition get_or :: "(string \<times> pyval) list \<Rightarrow> string \<Rightarrow> pyval \<Rightarrow> pyval" where
  "get_or kvs k d = (case map_of kvs k of None \<Rightarrow> d | Some v \<Rightarrow> v)"

text \<open>\<open>Case.__init__\<close>: every field is read with \<open>case_data.get\<close>, so a missing key
  gives \<open>None\<close> (or the empty list); data that is not a dictionary has no \<open>get\<close>.\<close>

fun Case_init :: "pyval \<Rightarrow> error + Case" where
  "Case_init (PDict kvs) =
     Inr \<lparr>case_number = get_or kvs ''case_number'' PNone,
          title = get_or kvs ''title'' PNone,
          summary = get_or kvs ''summary'' PNone,
          legal_system = get_or kvs ''legal_system'' PNone,
          plaintiff = get_or kvs ''plaintiff'' PNone,
          defendant = get_or kvs ''defendant'' PNone,
          evidence = get_or kvs ''evidence'' (PList []),
          witnesses = get_or kvs ''witnesses'' (PList [])\<rparr>"
| "Case_init _ = Inl AttributeError"

text \<open>What \<open>open\<close> followed by \<open>json.load\<close> does with a path: the file is missing, its
  text is not JSON, or it holds a document.\<close>

datatype file_outcome = FileNotFound | NotJSON | Document pyval

definition load_case :: "(string \<Rightarrow> file_outcome) \<Rightarrow> string \<Rightarrow> error + Case" where
  "load_case fs filepath =
     (case fs filepath of
        FileNotFound \<Rightarrow> Inl (Exception (''Case file not found at: '' @ filepath))
      | NotJSON \<Rightarrow> Inl (Exception (''Error decoding JSON from file: '' @ filepath))
      | Document case_data \<Rightarrow> Case_init case_data)"

section \<open>courtroom\_simulation.py\<close>

datatype TrialPhase =
  PRE_TRIAL | OPENING_STATEMENTS | WITNESS_EXAMINATION | CLOSING_STATEMENTS | DELIBERATION | VERDICT

text \<open>\<open>create_courtroom_agents\<close>.  The dictionary of participants is also the store of
  the participant objects: the controller and the inbound handler both reach a participant
  through its key.\<close>

definition judge_of :: "TinyPerson \<Rightarrow> TinyPerson" where
  "judge_of a =
     define_p ''personality'' (PDict [(''traits'', PList [PStr ''impartial'', PStr ''stern'', PStr ''knowledgeable in law'', PStr ''patient''])])
       (define_p ''occupation'' (PDict [(''title'', PStr ''Judge''), (''organization'', PStr ''District Court'')])
         (define_p ''age'' (PInt 65) a))"

definition prosecutor_of :: "TinyPerson \<Rightarrow> TinyPerson" where
  "prosecutor_of a =
     define_p ''personality'' (PDict [(''traits'', PList [PStr ''ambitious'', PStr ''skilled orator'', PStr ''determined'', PStr ''believes in evidence''])])
       (define_p ''occupation'' (PDict [(''title'', PStr ''Prosecutor''), (''organization'', PStr (''District Attorney'' @ [CHR 0x27] @ ''s Office''))])
         (define_p ''age'' (PInt 35) a))"

definition defense_lawyer_of :: "TinyPerson \<Rightarrow> TinyPerson" where
  "defense_lawyer_of a =
     define_p ''personality'' (PDict [(''traits'', PList [PStr ''charismatic'', PStr ''persuasive'', PStr ''staunch defender'', PStr ''empathetic''])])
       (define_p ''occupation'' (PDict [(''title'', PStr ''Defense Lawyer''), (''organization'', PStr ''Faye & Associates'')])
         (define_p ''age'' (PInt 42) a))"

definition create_courtroom_agents :: "string option \<Rightarrow> Case \<Rightarrow> string \<Rightarrow> error + (string \<rightharpoonup> TinyPerson)" where
  "create_courtroom_agents env_key c provider_name =
     (case TinyPerson_init env_key (PStr ''Judge Reynolds'') provider_name of
        Inl e \<Rightarrow> Inl e
      | Inr j \<Rightarrow>
     (case subscript (plaintiff c) ''lawyer'' of
        Inl e \<Rightarrow> Inl e
      | Inr pl \<Rightarrow>
     (case TinyPerson_init env_key pl provider_name of
        Inl e \<Rightarrow> Inl e
      | Inr p \<Rightarrow>
     (case subscript (defendant c) ''lawyer'' of
        Inl e \<Rightarrow> Inl e
      | Inr dl \<Rightarrow>
     (case TinyPerson_init env_key dl provider_name of
        Inl e \<Rightarrow> Inl e
      | Inr d \<Rightarrow>
          Inr [''judge'' \<mapsto> judge_of j, ''prosecutor'' \<mapsto> prosecutor_of p,
               ''defense_lawyer'' \<mapsto> defense_lawyer_of d])))))"

text \<open>The dictionaries handed to \<open>send_event\<close>, one constructor for each shape.\<close>

datatype event =
    trial_starts pyval
  | phase_starts string
  | request_user_input pyval
  | agent_speaks pyval pyval
  | trial_finished

text \<open>
  The connection of the \<open>websockets\<close> library, as far as the program uses it: \<open>send\<close>
  puts a message on the outbound stream, and raises \<open>ConnectionClosed\<close> (the exception
  \<open>server.py\<close> names) once the connection is closed.
\<close>

record connection =
  is_open :: bool
  sent :: "event list"

definition send :: "event \<Rightarrow> connection \<Rightarrow> error + connection" where
  "send ev ws = (if is_open ws then Inr (ws\<lparr>sent := sent ws @ [ev]\<rparr>) else Inl ConnectionClosed)"

text \<open>
  \<open>controller.run()\<close> is a coroutine.  \<open>task\<close> is the point where it is suspended: in
  the \<open>send\<close> of an event, in \<open>asyncio.sleep\<close>, or in \<open>user_input_queue.get()\<close>; or how
  it ended.
\<close>

datatype speaker = Prosecutor | DefenseLawyer

datatype task =
    NotStarted
  | SentTrialStarts
  | SentPhaseStarts
  | AwaitingInput speaker
  | Spoke speaker
  | Finished
  | Failed error
  | Cancelled

fun key_of :: "speaker \<Rightarrow> string" where
  "key_of Prosecutor = ''prosecutor''"
| "key_of DefenseLawyer = ''defense_lawyer''"

text \<open>The state of one session: the fields of \<open>SimulationController\<close>, the simulation
  task, whether \<open>handler\<close> is still in its receive loop, and the prompts sent to the
  generation service so far.\<close>

record session =
  the_case :: Case
  agents :: "string \<rightharpoonup> TinyPerson"
  websocket :: "connection option"
  user_input_queue :: "pyval list"
  phase :: TrialPhase
  simulation_task :: task
  receiving :: bool
  requests :: "string list"

definition send_event :: "event \<Rightarrow> session \<Rightarrow> (error + unit) \<times> session" where
  "send_event event_data s =
     (case websocket s of
        None \<Rightarrow> (Inr (), s)
      | Some ws \<Rightarrow>
          (case send event_data ws of
             Inl e \<Rightarrow> (Inl e, s)
           | Inr ws' \<Rightarrow> (Inr (), s\<lparr>websocket := Some ws'\<rparr>)))"

text \<open>
  \<open>get_agent_action\<close>, up to its suspension.  The participant is given by its key.  The
  result is \<open>Some\<close> of the returned text when the call returns at once (the autonomous
  branch), and \<open>None\<close> when the coroutine now waits in \<open>user_input_queue.get()\<close>.
\<close>

definition get_agent_action :: "backend \<Rightarrow> string \<Rightarrow> string \<Rightarrow> session \<Rightarrow> (error + pyval option) \<times> session" where
  "get_agent_action be k prompt s =
     (case agents s k of
        None \<Rightarrow> (Inl (KeyError k), s)
      | Some a \<Rightarrow>
     (case listen prompt a of
        Inl e \<Rightarrow> (Inl e, s)
      | Inr a1 \<Rightarrow>
          (let s1 = s\<lparr>agents := (agents s)(k \<mapsto> a1)\<rparr> in
           if is_user_controlled a1 then
             (case send_event (request_user_input (get_or (persona a1) ''role'' (PStr ''unknown''))) s1 of
                (Inl e, s2) \<Rightarrow> (Inl e, s2)
              | (Inr u, s2) \<Rightarrow> (Inr None, s2))
           else
             (case act be a1 (requests s1) of
                Inl e \<Rightarrow> (Inl e, s1)
              | Inr (response, a2, calls) \<Rightarrow>
                  (Inr (Some (PStr response)), s1\<lparr>agents := (agents s1)(k \<mapsto> a2), requests := calls\<rparr>)))))"

text \<open>
  \<open>get_agent_action\<close>, from \<open>user_input_queue.get()\<close> on: with an empty queue the
  coroutine stays suspended; otherwise the first message of the queue is taken, recorded
  in the memory and returned.
\<close>

definition get_agent_action_resume :: "string \<Rightarrow> session \<Rightarrow> (error + pyval option) \<times> session" where
  "get_agent_action_resume k s =
     (case user_input_queue s of
        [] \<Rightarrow> (Inr None, s)
      | user_message # rest \<Rightarrow>
          (case agents s k of
             None \<Rightarrow> (Inl (KeyError k), s)
           | Some a \<Rightarrow>
               (Inr (Some user_message),
                s\<lparr>user_input_queue := rest,
                  agents := (agents s)(k \<mapsto> a\<lparr>memory := memory a @ [''Said: '' @ str user_message]\<rparr>)\<rparr>)))"

definition prompt_p :: "Case \<Rightarrow> string" where
  "prompt_p c =
     ''The trial for '' @ [CHR 0x27] @ str (title c) @ [CHR 0x27] @
     '' has begun. As the prosecutor, present your opening statement. Summarize the case: '' @
     str (summary c) @ ''.''"

definition prompt_d :: "pyval \<Rightarrow> pyval \<Rightarrow> string" where
  "prompt_d pn dn =
     ''Thank you, '' @ str pn @ ''. Now, '' @ str dn @ '', you may present your opening statement.''"

text \<open>The two lines after a call of \<open>get_agent_action\<close> in \<open>run_opening_statements\<close>:
  the \<open>agent_speaks\<close> event, then \<open>asyncio.sleep(1)\<close>.\<close>

definition speaks :: "speaker \<Rightarrow> pyval \<Rightarrow> session \<Rightarrow> (error + task) \<times> session" where
  "speaks who statement s =
     (case agents s (key_of who) of
        None \<Rightarrow> (Inl (KeyError (key_of who)), s)
      | Some a \<Rightarrow>
     (case subscript (PDict (persona a)) ''name'' of
        Inl e \<Rightarrow> (Inl e, s)
      | Inr n \<Rightarrow>
     (case send_event (agent_speaks n statement) s of
        (Inl e, s') \<Rightarrow> (Inl e, s')
      | (Inr u, s') \<Rightarrow> (Inr (Spoke who), s'))))"

text \<open>One step of \<open>run_opening_statements\<close>: the prompt is given to the participant, and
  the step either completes with the \<open>agent_speaks\<close> event or suspends for the human.\<close>

definition turn :: "backend \<Rightarrow> speaker \<Rightarrow> string \<Rightarrow> session \<Rightarrow> (error + task) \<times> session" where
  "turn be who prompt s =
     (case get_agent_action be (key_of who) prompt s of
        (Inl e, s') \<Rightarrow> (Inl e, s')
      | (Inr None, s') \<Rightarrow> (Inr (AwaitingInput who), s')
      | (Inr (Some statement), s') \<Rightarrow> speaks who statement s')"

text \<open>
  \<open>run\<close> with \<open>run_opening_statements\<close>, resumed at the point where the task is
  suspended and run to its next suspension.
\<close>

fun resume :: "backend \<Rightarrow> task \<Rightarrow> session \<Rightarrow> (error + task) \<times> session" where
  "resume be NotStarted s =
     (case send_event (trial_starts (title (the_case s))) s of
        (Inl e, s') \<Rightarrow> (Inl e, s')
      | (Inr u, s') \<Rightarrow> (Inr SentTrialStarts, s'))"
| "resume be SentTrialStarts s =
     (case send_event (phase_starts ''Opening Statements'') (s\<lparr>phase := OPENING_STATEMENTS\<rparr>) of
        (Inl e, s') \<Rightarrow> (Inl e, s')
      | (Inr u, s') \<Rightarrow> (Inr SentPhaseStarts, s'))"
| "resume be SentPhaseStarts s =
     (case agents s ''prosecutor'' of
        None \<Rightarrow> (Inl (KeyError ''prosecutor''), s)
      | Some p \<Rightarrow>
     (case agents s ''defense_lawyer'' of
        None \<Rightarrow> (Inl (KeyError ''defense_lawyer''), s)
      | Some d \<Rightarrow> turn be Prosecutor (prompt_p (the_case s)) s))"
| "resume be (AwaitingInput who) s =
     (case get_agent_action_resume (key_of who) s of
        (Inl e, s') \<Rightarrow> (Inl e, s')
      | (Inr None, s') \<Rightarrow> (Inr (AwaitingInput who), s')
      | (Inr (Some statement), s') \<Rightarrow> speaks who statement s')"
| "resume be (Spoke Prosecutor) s =
     (case agents s ''prosecutor'' of
        None \<Rightarrow> (Inl (KeyError ''prosecutor''), s)
      | Some p \<Rightarrow>
     (case agents s ''defense_lawyer'' of
        None \<Rightarrow> (Inl (KeyError ''defense_lawyer''), s)
      | Some d \<Rightarrow>
     (case subscript (PDict (persona p)) ''name'' of
        Inl e \<Rightarrow> (Inl e, s)
      | Inr pn \<Rightarrow>
     (case subscript (PDict (persona d)) ''name'' of
        Inl e \<Rightarrow> (Inl e, s)
      | Inr dn \<Rightarrow> turn be DefenseLawyer (prompt_d pn dn) s))))"
| "resume be (Spoke DefenseLawyer) s =
     (case send_event trial_finished s of
        (Inl e, s') \<Rightarrow> (Inl e, s')
      | (Inr u, s') \<Rightarrow> (Inr Finished, s'))"
| "resume be Finished s = (Inr Finished, s)"
| "resume be (Failed e) s = (Inr (Failed e), s)"
| "resume be Cancelled s = (Inr Cancelled, s)"

text \<open>The event loop runs the simulation task: an exception that leaves \<open>run\<close> ends the
  task.\<close>

definition tick :: "backend \<Rightarrow> session \<Rightarrow> session" where
  "tick be s =
     (case resume be (simulation_task s) s of
        (Inl e, s') \<Rightarrow> s'\<lparr>simulation_task := Failed e\<rparr>
      | (Inr t, s') \<Rightarrow> s'\<lparr>simulation_task := t\<rparr>)"

section \<open>server.py: the handler of a connection\<close>

definition set_user_controlled :: "string \<Rightarrow> bool \<Rightarrow> session \<Rightarrow> (error + unit) \<times> session" where
  "set_user_controlled k b s =
     (case agents s k of
        None \<Rightarrow> (Inl (KeyError k), s)
      | Some a \<Rightarrow> (Inr (), s\<lparr>agents := (agents s)(k \<mapsto> a\<lparr>is_user_controlled := b\<rparr>)\<rparr>))"

definition set_both :: "string \<Rightarrow> bool \<Rightarrow> string \<Rightarrow> bool \<Rightarrow> session \<Rightarrow> (error + unit) \<times> session" where
  "set_both k1 b1 k2 b2 s =
     (case set_user_controlled k1 b1 s of
        (Inl e, s') \<Rightarrow> (Inl e, s')
      | (Inr u, s') \<Rightarrow> set_user_controlled k2 b2 s')"

text \<open>The body of the receive loop for one message, after \<open>json.loads\<close>.\<close>

definition on_message :: "pyval \<Rightarrow> session \<Rightarrow> (error + unit) \<times> session" where
  "on_message data s =
     (case subscript data ''event'' of
        Inl e \<Rightarrow> (Inl e, s)
      | Inr ev \<Rightarrow>
          if ev = PStr ''set_role'' then
            (case subscript data ''role'' of
               Inl e \<Rightarrow> (Inl e, s)
             | Inr role \<Rightarrow>
                 if role = PStr ''prosecutor'' then set_both ''prosecutor'' True ''defense_lawyer'' False s
                 else if role = PStr ''defense'' then set_both ''defense_lawyer'' True ''prosecutor'' False s
                 else set_both ''prosecutor'' False ''defense_lawyer'' False s)
          else if ev = PStr ''user_input'' then
            (case subscript data ''message'' of
               Inl e \<Rightarrow> (Inl e, s)
             | Inr m \<Rightarrow> (Inr (), s\<lparr>user_input_queue := user_input_queue s @ [m]\<rparr>))
          else (Inr (), s))"

text \<open>\<open>simulation_task.cancel()\<close>: a task that is done stays as it is.\<close>

fun cancel :: "task \<Rightarrow> task" where
  "cancel Finished = Finished"
| "cancel (Failed e) = Failed e"
| "cancel t = Cancelled"

text \<open>The \<open>finally\<close> clause of \<open>handler\<close>: the receive loop is left and the simulation
  task is cancelled.\<close>

definition handler_exit :: "session \<Rightarrow> session" where
  "handler_exit s = s\<lparr>receiving := False, simulation_task := cancel (simulation_task s)\<rparr>"

text \<open>
  What can happen to a session, one at a time, as the event loop schedules it: the
  simulation task runs to its next suspension; the receive loop takes the next inbound
  message (\<open>None\<close> when \<open>json.loads\<close> rejects its text); the client goes away; the receive
  loop finds the connection closed.
\<close>

datatype action = Tick | Receive "pyval option" | Disconnect | EndOfStream

fun step :: "backend \<Rightarrow> action \<Rightarrow> session \<Rightarrow> session" where
  "step be Tick s = tick be s"
| "step be (Receive m) s =
     (if \<not> receiving s then s
      else (case m of
              None \<Rightarrow> handler_exit s
            | Some data \<Rightarrow>
                (case on_message data s of
                   (Inl e, s') \<Rightarrow> handler_exit s'
                 | (Inr u, s') \<Rightarrow> s')))"
| "step be Disconnect s =
     s\<lparr>websocket := map_option (\<lambda>ws. ws\<lparr>is_open := False\<rparr>) (websocket s)\<rparr>"
| "step be EndOfStream s = (if receiving s then handler_exit s else s)"

fun exec :: "backend \<Rightarrow> action list \<Rightarrow> session \<Rightarrow> session" where
  "exec be [] s = s"
| "exec be (a # as) s = exec be as (step be a s)"

text \<open>The start of \<open>handler\<close>: the case is loaded, the participants are created with the
  provider \<open>openai\<close>, and the simulation task is created on the new connection.\<close>

definition handler_setup :: "(string \<Rightarrow> file_outcome) \<Rightarrow> string option \<Rightarrow> error + session" where
  "handler_setup fs env_key =
     (case load_case fs ''cases/case-001.json'' of
        Inl e \<Rightarrow> Inl e
      | Inr c \<Rightarrow>
     (case create_courtroom_agents env_key c ''openai'' of
        Inl e \<Rightarrow> Inl e
      | Inr ags \<Rightarrow>
          Inr \<lparr>the_case = c, agents = ags, websocket = Some \<lparr>is_open = True, sent = []\<rparr>,
               user_input_queue = [], phase = PRE_TRIAL, simulation_task = NotStarted,
               receiving = True, requests = []\<rparr>))"

text \<open>The outbound stream of a session, and the inbound messages of the protocol.\<close>

definition outbound :: "session \<Rightarrow> event list" where
  "outbound s = (case websocket s of None \<Rightarrow> [] | Some ws \<Rightarrow> sent ws)"

definition set_role :: "string \<Rightarrow> pyval" where
  "set_role r = PDict [(''event'', PStr ''set_role''), (''role'', PStr r)]"

definition user_input :: "string \<Rightarrow> pyval" where
  "user_input t = PDict [(''event'', PStr ''user_input''), (''message'', PStr t)]"

section \<open>Notions of the specification\<close>

text \<open>The task state from which the step of a speaker starts, and the prompt of the step
  (\<open>pn\<close> and \<open>dn\<close> are the names of the prosecutor and of the defense lawyer).\<close>

fun turn_start :: "speaker \<Rightarrow> task" where
  "turn_start Prosecutor = SentPhaseStarts"
| "turn_start DefenseLawyer = Spoke Prosecutor"

fun context_prompt :: "speaker \<Rightarrow> Case \<Rightarrow> pyval \<Rightarrow> pyval \<Rightarrow> string" where
  "context_prompt Prosecutor c pn dn = prompt_p c"
| "context_prompt DefenseLawyer c pn dn = prompt_d pn dn"


text \<open>A request to the generation service that fails, and the texts by which
  \<open>generate\<close> reports a failure.\<close>

fun failure :: "reply \<Rightarrow> bool" where
  "failure (Reply t) = False"
| "failure (RequestException e) = True"
| "failure (OtherException e) = True"

definition error_prefixes :: "string list" where
  "error_prefixes =
     [''Error generating text with OpenAI: '', ''Error communicating with Ollama: '',
      ''Error generating text with Ollama: '']"

definition error_indicator :: "string \<Rightarrow> bool" where
  "error_indicator msg = list_ex (\<lambda>p. take (length p) msg = p) error_prefixes"

text \<open>The phases announced on an outbound stream, in order.\<close>

fun phases_started :: "event list \<Rightarrow> string list" where
  "phases_started [] = []"
| "phases_started (phase_starts x # es) = x # phases_started es"
| "phases_started (e # es) = phases_started es"

definition phases :: "session \<Rightarrow> string list" where
  "phases s = phases_started (outbound s)"

definition trial_phases :: "TrialPhase list" where
  "trial_phases =
     [PRE_TRIAL, OPENING_STATEMENTS, WITNESS_EXAMINATION, CLOSING_STATEMENTS, DELIBERATION, VERDICT]"

text \<open>What the announced phases can be at each point of the simulation task.\<close>

fun phase_log :: "task \<Rightarrow> string list \<Rightarrow> bool" where
  "phase_log NotStarted xs = (xs = [])"
| "phase_log SentTrialStarts xs = (xs = [])"
| "phase_log (Failed e) xs = (xs = [] \<or> xs = [''Opening Statements''])"
| "phase_log Cancelled xs = (xs = [] \<or> xs = [''Opening Statements''])"
| "phase_log t xs = (xs = [''Opening Statements''])"

definition phase_inv :: "session \<Rightarrow> bool" where
  "phase_inv s = (websocket s \<noteq> None \<and> phase_log (simulation_task s) (phases s))"


text \<open>A case file that \<open>handler\<close> can set a session up from: a JSON object whose
  \<open>plaintiff\<close> and \<open>defendant\<close> are objects with a \<open>lawyer\<close>.\<close>

fun has_lawyer :: "pyval \<Rightarrow> bool" where
  "has_lawyer (PDict kvs) = (map_of kvs ''lawyer'' \<noteq> None)"
| "has_lawyer v = False"

fun usable_case :: "file_outcome \<Rightarrow> bool" where
  "usable_case (Document (PDict kvs)) =
     (has_lawyer (get_or kvs ''plaintiff'' PNone) \<and> has_lawyer (get_or kvs ''defendant'' PNone))"
| "usable_case f = False"

section \<open>A concrete session\<close>

definition doe_case :: pyval where
  "doe_case =
     PDict [(''title'', PStr ''State v. Doe''), (''summary'', PStr ''A theft''),
            (''plaintiff'', PDict [(''lawyer'', PStr ''Ann'')]),
            (''defendant'', PDict [(''lawyer'', PStr ''Bob'')])]"

definition doe_files :: "string \<Rightarrow> file_outcome" where
  "doe_files path = (if path = ''cases/case-001.json'' then Document doe_case else FileNotFound)"

definition steady :: backend where
  "steady n prompt = Reply '' I object. ''"

definition down :: backend where
  "down n prompt = OtherException ''timeout''"

text \<open>An entry of the memory that records something heard.\<close>

definition heard :: "string \<Rightarrow> bool" where
  "heard entry = (take 7 entry = ''Heard: '')"

text \<open>A participant after a human turn: the prompt heard, then the utterance.\<close>

definition bob_spoken :: TinyPerson where
  "bob_spoken =
     \<lparr>persona = [(''name'', PStr ''Bob'')], memory = [''Heard: Your turn'', ''Said: Not guilty''],
      llm_provider = OpenAIProvider ''sk'', is_user_controlled = True\<rparr>"

definition person :: "pyval \<Rightarrow> TinyPerson" where
  "person n = \<lparr>persona = [(''name'', n)], memory = [], llm_provider = OpenAIProvider ''sk'',
               is_user_controlled = False\<rparr>"

definition doe_session :: session where
  "doe_session =
     \<lparr>the_case = \<lparr>case_number = PNone, title = PStr ''State v. Doe'', summary = PStr ''A theft'',
                   legal_system = PNone, plaintiff = PDict [(''lawyer'', PStr ''Ann'')],
                   defendant = PDict [(''lawyer'', PStr ''Bob'')], evidence = PList [],
                   witnesses = PList []\<rparr>,
      agents = [''judge'' \<mapsto> judge_of (person (PStr ''Judge Reynolds'')),
                ''prosecutor'' \<mapsto> prosecutor_of (person (PStr ''Ann'')),
                ''defense_lawyer'' \<mapsto> defense_lawyer_of (person (PStr ''Bob''))],
      websocket = Some \<lparr>is_open = True, sent = []\<rparr>, user_input_queue = [],
      phase = PRE_TRIAL, simulation_task = NotStarted, receiving = True, requests = []\<rparr>"

text \<open>A case file without title and summary, and the session \<open>handler\<close> sets up from it.\<close>

definition untitled_case :: pyval where
  "untitled_case =
     PDict [(''plaintiff'', PDict [(''lawyer'', PStr ''Ann'')]),
            (''defendant'', PDict [(''lawyer'', PStr ''Bob'')])]"

definition untitled_files :: "string \<Rightarrow> file_outcome" where
  "untitled_files path = (if path = ''cases/case-001.json'' then Document untitled_case else FileNotFound)"

definition untitled_session :: session where
  "untitled_session =
     doe_session\<lparr>the_case := (the_case doe_session)\<lparr>title := PNone, summary := PNone\<rparr>\<rparr>"

definition doe_announced :: session where
  "doe_announced = exec steady [Tick, Tick] doe_session"

definition bob_human :: TinyPerson where
  "bob_human = (defense_lawyer_of (person (PStr ''Bob'')))\<lparr>is_user_controlled := True\<rparr>"

definition doe_spoken :: "event list" where
  "doe_spoken =
     [trial_starts (PStr ''State v. Doe''), phase_starts ''Opening Statements'',
      agent_speaks (PStr ''Ann'') (PStr ''I object.'')]"

definition no_files :: "string \<Rightarrow> file_outcome" where
  "no_files path = FileNotFound"

text \<open>What the simulation task never changes in a participant: everything but the
  memory.\<close>

definition profile :: "TinyPerson \<Rightarrow> (string \<times> pyval) list \<times> LLMProvider \<times> bool" where
  "profile a = (persona a, llm_provider a, is_user_controlled a)"

definition profiles :: "session \<Rightarrow> string \<Rightarrow> ((string \<times> pyval) list \<times> LLMProvider \<times> bool) option" where
  "profiles s k = map_option profile (agents s k)"


text \<open>The session in which two inputs arrived during the sleep after the turn of the
  prosecutor, before the client took the role of the defense.\<close>

definition doe_two_early :: session where
  "doe_two_early =
     exec steady [Tick, Tick, Tick, Receive (Some (user_input ''first'')),
                  Receive (Some (user_input ''second'')), Receive (Some (set_role ''defense''))]
       doe_session"

text \<open>An action that brings an utterance: an inbound message whose event is
  \<open>user_input\<close>.\<close>

fun is_utterance :: "action \<Rightarrow> bool" where
  "is_utterance (Receive (Some data)) = (subscript data ''event'' = Inr (PStr ''user_input''))"
| "is_utterance a = False"

text \<open>The session in which the client took the role of the defense during the sleep after
  the turn of the prosecutor, and the turn of the defense lawyer waits for input.\<close>

definition doe_waiting :: session where
  "doe_waiting =
     exec steady [Tick, Tick, Tick, Receive (Some (set_role ''defense'')), Tick] doe_session"

text \<open>The events of a complete run, in order; \<open>m1\<close> and \<open>m2\<close> are the statements of the
  prosecutor and of the defense lawyer.\<close>

definition run_events :: "pyval \<Rightarrow> pyval \<Rightarrow> pyval \<Rightarrow> pyval \<Rightarrow> pyval \<Rightarrow> event list" where
  "run_events ti pn m1 dn m2 =
     [trial_starts ti, phase_starts ''Opening Statements'', agent_speaks pn m1,
      agent_speaks dn m2, trial_finished]"

text \<open>The number of events a run has emitted when the simulation task stands at a
  suspension point of an autonomous run.\<close>

fun emitted :: "task \<Rightarrow> nat option" where
  "emitted NotStarted = Some 0"
| "emitted SentTrialStarts = Some 1"
| "emitted SentPhaseStarts = Some 2"
| "emitted (Spoke Prosecutor) = Some 3"
| "emitted (Spoke DefenseLawyer) = Some 4"
| "emitted Finished = Some 5"
| "emitted t = None"

text \<open>The outbound channel is open and both lawyers are autonomous.\<close>

definition calm :: "session \<Rightarrow> bool" where
  "calm s =
     ((case websocket s of None \<Rightarrow> False | Some ws \<Rightarrow> is_open ws) \<and>
      (case agents s ''prosecutor'' of None \<Rightarrow> False | Some p \<Rightarrow> \<not> is_user_controlled p) \<and>
      (case agents s ''defense_lawyer'' of None \<Rightarrow> False | Some d \<Rightarrow> \<not> is_user_controlled d))"

text \<open>The session is calm in every state that a schedule goes through.\<close>

fun throughout :: "backend \<Rightarrow> action list \<Rightarrow> session \<Rightarrow> bool" where
  "throughout be [] s = calm s"
| "throughout be (a # as) s = (calm s \<and> throughout be as (step be a s))"

text \<open>A session after \<open>k\<close> runs of the simulation task follows the script of a complete
  run: unless the task was cancelled, the outbound stream holds the first \<open>k\<close> events of
  the script and the task stands behind them.\<close>

definition on_script :: "pyval \<Rightarrow> pyval \<Rightarrow> pyval \<Rightarrow> nat \<Rightarrow> session \<Rightarrow> bool" where
  "on_script ti pn dn k s =
     (title (the_case s) = ti \<and>
      (\<exists>p. agents s ''prosecutor'' = Some p \<and> map_of (persona p) ''name'' = Some pn) \<and>
      (\<exists>d. agents s ''defense_lawyer'' = Some d \<and> map_of (persona d) ''name'' = Some dn) \<and>
      (\<exists>m1 m2.
         (simulation_task s = Cancelled \<and> (\<exists>n. outbound s = take n (run_events ti pn m1 dn m2))) \<or>
         (emitted (simulation_task s) = Some (min 5 k) \<and>
          outbound s = take k (run_events ti pn m1 dn m2))))"

text \<open>A schedule in which the client sends an utterance and names a role that is neither
  lawyer while the simulation task runs to its end.\<close>

definition doe_schedule :: "action list" where
  "doe_schedule =
     [Tick, Receive (Some (user_input ''hello'')), Tick, Receive (Some (set_role ''judge'')),
      Tick, Tick, Tick]"

section \<open>Evaluation of the model\<close>

lemmas run_defs =
  tick_def turn_def get_agent_action_def get_agent_action_resume_def speaks_def send_event_def
  send_def listen_def act_def build_prompt_def outbound_def on_message_def set_both_def
  set_user_controlled_def handler_exit_def set_role_def user_input_def Let_def

lemmas doe_defs =
  doe_session_def person_def judge_of_def prosecutor_of_def defense_lawyer_of_def define_p_def
  steady_def down_def strip_def isspace_def

lemma doe_setup: "handler_setup doe_files (Some ''sk'') = Inr doe_session"
  by (simp add: handler_setup_def load_case_def doe_files_def doe_case_def get_or_def
        create_courtroom_agents_def TinyPerson_init_def get_llm_provider_def lower_def
        lower_char_def doe_session_def person_def)

lemma doe_run_finished:
  "simulation_task (exec steady [Tick, Tick, Tick, Tick, Tick] doe_session) = Finished"
  by (simp add: run_defs doe_defs)

lemma doe_run_outbound:
  "outbound (exec steady [Tick, Tick, Tick, Tick, Tick] doe_session) =
     [trial_starts (PStr ''State v. Doe''), phase_starts ''Opening Statements'',
      agent_speaks (PStr ''Ann'') (PStr ''I object.''),
      agent_speaks (PStr ''Bob'') (PStr ''I object.''), trial_finished]"
  by (simp add: run_defs doe_defs)

section \<open>Participants\<close>

text \<open>
  C10, as the code has it.  A participant in human-controlled mode whose memory is not
  empty: \<open>act\<close> returns the most recent entry of the memory as it is, the participant
  (memory and persona) is unchanged, and no prompt is sent to the generation service.
  The entry is whatever was recorded last: what the participant has just heard when \<open>act\<close>
  follows \<open>listen\<close>, and the utterance of the participant when that was recorded last.
\<close>

theorem act_user_controlled:
  assumes "is_user_controlled a" and "memory a \<noteq> []"
  shows "act be a calls = Inr (last (memory a), a, calls) \<and>
         (listen m a = Inr a' \<longrightarrow>
            act be a' calls = Inr (''Heard: '' @ m, a', calls) \<and> heard (''Heard: '' @ m)) \<and>
         act be (a\<lparr>memory := memory a @ [''Said: '' @ u]\<rparr>) calls =
           Inr (''Said: '' @ u, a\<lparr>memory := memory a @ [''Said: '' @ u]\<rparr>, calls) \<and>
         \<not> heard (''Said: '' @ u)"
  using assms by (auto simp: act_def listen_def heard_def split: option.splits)

theorem act_user_controlled_witness:
  "is_user_controlled bob_spoken \<and> memory bob_spoken = [''Heard: Your turn'', ''Said: Not guilty''] \<and>
   act steady bob_spoken [] = Inr (''Said: Not guilty'', bob_spoken, [])"
proof -
  have c: "is_user_controlled bob_spoken" and m: "memory bob_spoken \<noteq> []"
    and mm: "memory bob_spoken = [''Heard: Your turn'', ''Said: Not guilty'']"
    by (simp_all add: bob_spoken_def)
  have l: "last (memory bob_spoken) = ''Said: Not guilty''"
    by (simp add: bob_spoken_def)
  from act_user_controlled [OF c m, of steady "[]", THEN conjunct1] l c mm show ?thesis
    by (simp only:)
qed

text \<open>The claim of C10 fails in its parenthesis: after a human turn the most recent entry
  is the utterance, and \<open>act\<close> returns it, not the last thing the participant heard.\<close>

theorem act_returns_said_counterexample:
  "is_user_controlled bob_spoken \<and> memory bob_spoken \<noteq> [] \<and>
   act steady bob_spoken [] = Inr (''Said: Not guilty'', bob_spoken, []) \<and>
   \<not> heard ''Said: Not guilty'' \<and>
   last (filter heard (memory bob_spoken)) = ''Heard: Your turn''"
  by (simp add: bob_spoken_def act_def heard_def)

section \<open>The steps of the simulation task\<close>

lemma on_message_user_input:
  "on_message (user_input t) s = (Inr (), s\<lparr>user_input_queue := user_input_queue s @ [PStr t]\<rparr>)"
  by (simp add: on_message_def user_input_def)

lemma human_turn_begin:
  assumes "websocket s = Some ws" "is_open ws"
      and "agents s (key_of who) = Some a" "map_of (persona a) ''name'' = Some n"
          "is_user_controlled a"
  shows "turn be who prompt s =
     (Inr (AwaitingInput who),
      s\<lparr>agents := (agents s)(key_of who \<mapsto> a\<lparr>memory := memory a @ [''Heard: '' @ prompt]\<rparr>),
        websocket := Some (ws\<lparr>sent := sent ws @
          [request_user_input (get_or (persona a) ''role'' (PStr ''unknown''))]\<rparr>)\<rparr>)"
  using assms by (simp add: turn_def get_agent_action_def listen_def send_event_def send_def)

lemma autonomous_turn:
  assumes "websocket s = Some ws" "is_open ws"
      and "agents s (key_of who) = Some a" "map_of (persona a) ''name'' = Some n"
          "\<not> is_user_controlled a"
      and "build_prompt (a\<lparr>memory := memory a @ [''Heard: '' @ prompt]\<rparr>) = Inr built"
  shows "turn be who prompt s =
     (Inr (Spoke who),
      s\<lparr>agents := (agents s)(key_of who \<mapsto>
           a\<lparr>memory := memory a @ [''Heard: '' @ prompt,
                ''Said: '' @ generate (llm_provider a) (be (length (requests s)) built)]\<rparr>),
        requests := requests s @ [built],
        websocket := Some (ws\<lparr>sent := sent ws @
           [agent_speaks n (PStr (generate (llm_provider a) (be (length (requests s)) built)))]\<rparr>)\<rparr>)"
  using assms
  by (simp add: turn_def get_agent_action_def listen_def act_def speaks_def send_event_def
        send_def Let_def)

lemma build_prompt_named:
  "map_of (persona a) ''name'' = Some n \<Longrightarrow> \<exists>built. build_prompt a = Inr built"
  by (simp add: build_prompt_def)

lemma tick_turn:
  assumes "simulation_task s = turn_start who"
      and "agents s ''prosecutor'' = Some p" "map_of (persona p) ''name'' = Some pn"
      and "agents s ''defense_lawyer'' = Some d" "map_of (persona d) ''name'' = Some dn"
      and "turn be who (context_prompt who (the_case s) pn dn) s = (Inr t, s')"
  shows "tick be s = s'\<lparr>simulation_task := t\<rparr>"
  using assms by (cases who) (simp_all add: tick_def)

lemma tick_awaiting:
  assumes "simulation_task s = AwaitingInput who" "user_input_queue s = m # rest"
      and "websocket s = Some ws" "is_open ws"
      and "agents s (key_of who) = Some a" "map_of (persona a) ''name'' = Some n"
  shows "tick be s =
     s\<lparr>user_input_queue := rest,
       agents := (agents s)(key_of who \<mapsto> a\<lparr>memory := memory a @ [''Said: '' @ str m]\<rparr>),
       websocket := Some (ws\<lparr>sent := sent ws @ [agent_speaks n m]\<rparr>),
       simulation_task := Spoke who\<rparr>"
  using assms
  by (simp add: tick_def get_agent_action_resume_def speaks_def send_event_def send_def)

lemma tick_blocked:
  "simulation_task s = AwaitingInput who \<Longrightarrow> user_input_queue s = [] \<Longrightarrow> tick be s = s"
  by (simp add: tick_def get_agent_action_resume_def)

section \<open>Human-controlled turns\<close>

text \<open>
  What the step of a human-controlled role does on an open channel and an empty queue: it
  records the prompt in the memory of the participant as heard, emits
  \<open>request_user_input\<close> and suspends.  When \<open>user_input\<close> with the text \<open>t\<close> then arrives,
  the resumed step emits \<open>agent_speaks\<close> with the name of the participant and exactly
  \<open>t\<close>, and the memory of the participant ends with the prompt as heard and \<open>t\<close> as said.
\<close>

lemma human_turn:
  assumes ws: "websocket s = Some ws" "is_open ws"
      and p: "agents s ''prosecutor'' = Some p" "map_of (persona p) ''name'' = Some pn"
      and d: "agents s ''defense_lawyer'' = Some d" "map_of (persona d) ''name'' = Some dn"
      and a: "agents s (key_of who) = Some a" "map_of (persona a) ''name'' = Some n"
             "is_user_controlled a"
      and t: "simulation_task s = turn_start who"
      and q: "user_input_queue s = []" and r: "receiving s"
  shows "simulation_task (tick be s) = AwaitingInput who \<and>
         outbound (tick be s) =
           outbound s @ [request_user_input (get_or (persona a) ''role'' (PStr ''unknown''))] \<and>
         agents (tick be s) (key_of who) =
           Some (a\<lparr>memory := memory a @ [''Heard: '' @ context_prompt who (the_case s) pn dn]\<rparr>) \<and>
         simulation_task (tick be (step be (Receive (Some (user_input t))) (tick be s))) = Spoke who \<and>
         outbound (tick be (step be (Receive (Some (user_input t))) (tick be s))) =
           outbound (tick be s) @ [agent_speaks n (PStr t)] \<and>
         agents (tick be (step be (Receive (Some (user_input t))) (tick be s))) (key_of who) =
           Some (a\<lparr>memory := memory a @
                   [''Heard: '' @ context_prompt who (the_case s) pn dn, ''Said: '' @ t]\<rparr>)"
proof -
  let ?prompt = "context_prompt who (the_case s) pn dn"
  let ?a1 = "a\<lparr>memory := memory a @ [''Heard: '' @ ?prompt]\<rparr>"
  let ?ws1 = "ws\<lparr>sent := sent ws @ [request_user_input (get_or (persona a) ''role'' (PStr ''unknown''))]\<rparr>"
  let ?s1 = "s\<lparr>agents := (agents s)(key_of who \<mapsto> ?a1), websocket := Some ?ws1,
               simulation_task := AwaitingInput who\<rparr>"
  let ?s2 = "?s1\<lparr>user_input_queue := [PStr t]\<rparr>"
  have s1: "tick be s = ?s1"
    using tick_turn [OF t p d human_turn_begin [OF ws a]] by simp
  have s2: "step be (Receive (Some (user_input t))) ?s1 = ?s2"
    using r q by (simp add: on_message_user_input)
  have s3: "tick be ?s2 =
      ?s2\<lparr>user_input_queue := [],
          agents := (agents ?s2)(key_of who \<mapsto> ?a1\<lparr>memory := memory ?a1 @ [''Said: '' @ str (PStr t)]\<rparr>),
          websocket := Some (?ws1\<lparr>sent := sent ?ws1 @ [agent_speaks n (PStr t)]\<rparr>),
          simulation_task := Spoke who\<rparr>"
    using ws a by (intro tick_awaiting) simp_all
  have s23: "tick be (step be (Receive (Some (user_input t))) ?s1) =
      ?s2\<lparr>user_input_queue := [],
          agents := (agents ?s2)(key_of who \<mapsto> ?a1\<lparr>memory := memory ?a1 @ [''Said: '' @ str (PStr t)]\<rparr>),
          websocket := Some (?ws1\<lparr>sent := sent ?ws1 @ [agent_speaks n (PStr t)]\<rparr>),
          simulation_task := Spoke who\<rparr>"
    by (simp only: s2 s3)
  show ?thesis
    by (simp only: s1 s23) (simp add: outbound_def ws)
qed

section \<open>The phases of a session\<close>

lemma phases_started_append [simp]:
  "phases_started (xs @ ys) = phases_started xs @ phases_started ys"
  by (induction xs rule: phases_started.induct) simp_all

lemma send_event_phases:
  assumes "send_event ev s = (r, s')" and "websocket s \<noteq> None"
  shows "websocket s' \<noteq> None \<and>
         phases s' = phases s @ (case r of Inl e \<Rightarrow> [] | Inr u \<Rightarrow> phases_started [ev])"
  using assms
  by (auto simp: send_event_def send_def phases_def outbound_def split: option.splits if_splits)

lemma get_agent_action_phases:
  assumes "get_agent_action be k prompt s = (r, s')" and "websocket s \<noteq> None"
  shows "websocket s' \<noteq> None \<and> phases s' = phases s"
proof (cases "agents s k")
  case None
  with assms show ?thesis by (simp add: get_agent_action_def)
next
  case (Some a)
  show ?thesis
  proof (cases "listen prompt a")
    case (Inl e)
    with Some assms show ?thesis by (simp add: get_agent_action_def)
  next
    case (Inr a1)
    let ?s1 = "s\<lparr>agents := (agents s)(k \<mapsto> a1)\<rparr>"
    have s1: "websocket ?s1 \<noteq> None" "phases ?s1 = phases s"
      using assms(2) by (simp_all add: phases_def outbound_def)
    show ?thesis
    proof (cases "is_user_controlled a1")
      case True
      obtain r2 s2 where se: "send_event (request_user_input (get_or (persona a1) ''role'' (PStr ''unknown''))) ?s1 = (r2, s2)"
        by (cases "send_event (request_user_input (get_or (persona a1) ''role'' (PStr ''unknown''))) ?s1")
      from send_event_phases [OF se s1(1)] s1(2)
      have "websocket s2 \<noteq> None \<and> phases s2 = phases s"
        by (cases r2) simp_all
      moreover have "s' = s2"
        using assms(1) Some Inr True se
        by (cases r2) (simp_all add: get_agent_action_def)
      ultimately show ?thesis by simp
    next
      case False
      with assms Some Inr show ?thesis
        by (auto simp: get_agent_action_def phases_def outbound_def Let_def split: sum.splits prod.splits)
    qed
  qed
qed

lemma get_agent_action_resume_phases:
  assumes "get_agent_action_resume k s = (r, s')" and "websocket s \<noteq> None"
  shows "websocket s' \<noteq> None \<and> phases s' = phases s"
  using assms
  by (auto simp: get_agent_action_resume_def phases_def outbound_def split: list.splits option.splits)

lemma speaks_phases:
  assumes "speaks who statement s = (r, s')" and "websocket s \<noteq> None"
  shows "websocket s' \<noteq> None \<and> phases s' = phases s \<and>
         (case r of Inl e \<Rightarrow> True | Inr t \<Rightarrow> t = Spoke who)"
proof (cases "agents s (key_of who)")
  case None
  with assms show ?thesis by (auto simp: speaks_def)
next
  case (Some a)
  show ?thesis
  proof (cases "map_of (persona a) ''name''")
    case None
    with Some assms show ?thesis by (auto simp: speaks_def)
  next
    case (Some n)
    obtain r2 s2 where se: "send_event (agent_speaks n statement) s = (r2, s2)"
      by (cases "send_event (agent_speaks n statement) s")
    from send_event_phases [OF se assms(2)]
    have "websocket s2 \<noteq> None \<and> phases s2 = phases s"
      by (cases r2) simp_all
    moreover have "s' = s2 \<and> (case r of Inl e \<Rightarrow> True | Inr t \<Rightarrow> t = Spoke who)"
      using assms(1) \<open>agents s (key_of who) = Some a\<close> Some se
      by (cases r2) (auto simp: speaks_def)
    ultimately show ?thesis by simp
  qed
qed

lemma turn_phases:
  assumes "turn be who prompt s = (r, s')" and "websocket s \<noteq> None"
  shows "websocket s' \<noteq> None \<and> phases s' = phases s \<and>
         (case r of Inl e \<Rightarrow> True | Inr t \<Rightarrow> t = Spoke who \<or> t = AwaitingInput who)"
proof -
  obtain r1 s1 where g: "get_agent_action be (key_of who) prompt s = (r1, s1)"
    by (cases "get_agent_action be (key_of who) prompt s")
  note g1 = get_agent_action_phases [OF g assms(2)]
  show ?thesis
  proof (cases r1)
    case (Inl e)
    with assms(1) g g1 show ?thesis by (auto simp: turn_def)
  next
    case (Inr o1)
    show ?thesis
    proof (cases o1)
      case None
      with assms(1) g g1 Inr show ?thesis by (auto simp: turn_def)
    next
      case (Some statement)
      with assms(1) g Inr have "speaks who statement s1 = (r, s')"
        by (simp add: turn_def)
      from speaks_phases [OF this] g1 show ?thesis by (cases r) auto
    qed
  qed
qed

lemma resume_phase_log:
  assumes "resume be t s = (r, s')" and "websocket s \<noteq> None" and "phase_log t (phases s)"
  shows "websocket s' \<noteq> None \<and>
         phase_log (case r of Inl e \<Rightarrow> Failed e | Inr t' \<Rightarrow> t') (phases s')"
proof (cases t)
  case NotStarted
  obtain r1 s1 where se: "send_event (trial_starts (title (the_case s))) s = (r1, s1)"
    by (cases "send_event (trial_starts (title (the_case s))) s")
  from send_event_phases [OF se assms(2)] assms(1,3) se NotStarted show ?thesis
    by (cases r1) auto
next
  case SentTrialStarts
  let ?s0 = "s\<lparr>phase := OPENING_STATEMENTS\<rparr>"
  have s0: "websocket ?s0 \<noteq> None" "phases ?s0 = phases s"
    using assms(2) by (simp_all add: phases_def outbound_def)
  obtain r1 s1 where se: "send_event (phase_starts ''Opening Statements'') ?s0 = (r1, s1)"
    by (cases "send_event (phase_starts ''Opening Statements'') ?s0")
  from send_event_phases [OF se s0(1)] s0(2) assms(1,3) se SentTrialStarts show ?thesis
    by (cases r1) auto
next
  case SentPhaseStarts
  show ?thesis
  proof (cases "agents s ''prosecutor'' = None \<or> agents s ''defense_lawyer'' = None")
    case True
    with assms SentPhaseStarts show ?thesis by (auto split: option.splits)
  next
    case False
    with assms(1) SentPhaseStarts have "turn be Prosecutor (prompt_p (the_case s)) s = (r, s')"
      by auto
    from turn_phases [OF this assms(2)] assms(3) SentPhaseStarts show ?thesis
      by (cases r) auto
  qed
next
  case (AwaitingInput who)
  obtain r1 s1 where g: "get_agent_action_resume (key_of who) s = (r1, s1)"
    by (cases "get_agent_action_resume (key_of who) s")
  note g1 = get_agent_action_resume_phases [OF g assms(2)]
  show ?thesis
  proof (cases r1)
    case (Inl e)
    with assms g g1 AwaitingInput show ?thesis by auto
  next
    case (Inr o1)
    show ?thesis
    proof (cases o1)
      case None
      with assms g g1 Inr AwaitingInput show ?thesis by auto
    next
      case (Some statement)
      with assms(1) g Inr AwaitingInput have "speaks who statement s1 = (r, s')"
        by simp
      from speaks_phases [OF this] g1 assms(3) AwaitingInput show ?thesis
        by (cases r) auto
    qed
  qed
next
  case (Spoke who)
  show ?thesis
  proof (cases who)
    case Prosecutor
    show ?thesis
    proof (cases "\<exists>p d pn dn. agents s ''prosecutor'' = Some p \<and> agents s ''defense_lawyer'' = Some d \<and>
                    map_of (persona p) ''name'' = Some pn \<and> map_of (persona d) ''name'' = Some dn")
      case True
      then obtain p d pn dn where
        "agents s ''prosecutor'' = Some p" "agents s ''defense_lawyer'' = Some d"
        "map_of (persona p) ''name'' = Some pn" "map_of (persona d) ''name'' = Some dn"
        by blast
      with assms(1) Spoke Prosecutor have "turn be DefenseLawyer (prompt_d pn dn) s = (r, s')"
        by simp
      from turn_phases [OF this assms(2)] assms(3) Spoke show ?thesis
        by (cases r) auto
    next
      case False
      with assms Spoke Prosecutor show ?thesis
        by (auto split: option.splits)
    qed
  next
    case DefenseLawyer
    obtain r1 s1 where se: "send_event trial_finished s = (r1, s1)"
      by (cases "send_event trial_finished s")
    from send_event_phases [OF se assms(2)] assms(1,3) se Spoke DefenseLawyer show ?thesis
      by (cases r1) auto
  qed
next
  case Finished
  with assms show ?thesis by auto
next
  case (Failed e)
  with assms show ?thesis by auto
next
  case Cancelled
  with assms show ?thesis by auto
qed

lemma tick_phase_inv: "phase_inv s \<Longrightarrow> phase_inv (tick be s)"
proof -
  assume inv: "phase_inv s"
  obtain r s' where rs: "resume be (simulation_task s) s = (r, s')"
    by (cases "resume be (simulation_task s) s")
  from inv have "websocket s \<noteq> None" "phase_log (simulation_task s) (phases s)"
    by (simp_all add: phase_inv_def)
  from resume_phase_log [OF rs this] rs show ?thesis
    by (cases r) (simp_all add: tick_def phase_inv_def phases_def outbound_def)
qed

lemma phase_log_cancel: "phase_log t xs \<Longrightarrow> phase_log (cancel t) xs"
  by (cases t) simp_all

lemma handler_exit_phase_inv: "phase_inv s \<Longrightarrow> phase_inv (handler_exit s)"
  by (simp add: phase_inv_def handler_exit_def phases_def outbound_def phase_log_cancel)

lemma phase_inv_frame:
  "websocket s' = websocket s \<Longrightarrow> simulation_task s' = simulation_task s \<Longrightarrow>
   phase_inv s' = phase_inv s"
  by (simp add: phase_inv_def phases_def outbound_def)

lemma set_user_controlled_frame:
  "set_user_controlled k b s = (r, s') \<Longrightarrow>
   websocket s' = websocket s \<and> simulation_task s' = simulation_task s \<and>
   user_input_queue s' = user_input_queue s \<and> receiving s' = receiving s"
  by (auto simp: set_user_controlled_def split: option.splits)

lemma set_both_frame:
  "set_both k1 b1 k2 b2 s = (r, s') \<Longrightarrow>
   websocket s' = websocket s \<and> simulation_task s' = simulation_task s \<and>
   user_input_queue s' = user_input_queue s \<and> receiving s' = receiving s"
  by (auto simp: set_both_def set_user_controlled_def split: option.splits)

lemma on_message_cases:
  "(\<exists>k1 b1 k2 b2. on_message data s = set_both k1 b1 k2 b2 s) \<or>
   (\<exists>e. on_message data s = (Inl e, s)) \<or>
   (\<exists>m. on_message data s = (Inr (), s\<lparr>user_input_queue := user_input_queue s @ [m]\<rparr>)) \<or>
   on_message data s = (Inr (), s)"
proof (cases "subscript data ''event''")
  case (Inl e)
  then show ?thesis by (simp add: on_message_def)
next
  case ev: (Inr ev)
  show ?thesis
  proof (cases "ev = PStr ''set_role''")
    case True
    show ?thesis
    proof (cases "subscript data ''role''")
      case (Inl e)
      with ev True show ?thesis by (simp add: on_message_def)
    next
      case (Inr role)
      with ev True have "\<exists>k1 b1 k2 b2. on_message data s = set_both k1 b1 k2 b2 s"
        by (cases "role = PStr ''prosecutor''"; cases "role = PStr ''defense''")
           (simp_all add: on_message_def, blast+)
      then show ?thesis by simp
    qed
  next
    case False
    with ev show ?thesis
      by (cases "subscript data ''message''") (auto simp: on_message_def)
  qed
qed

lemma on_message_frame:
  assumes "on_message data s = (r, s')"
  shows "websocket s' = websocket s \<and> simulation_task s' = simulation_task s \<and>
         receiving s' = receiving s"
proof -
  consider (roles) k1 b1 k2 b2 where "on_message data s = set_both k1 b1 k2 b2 s"
    | (raised) e where "on_message data s = (Inl e, s)"
    | (queued) m where "on_message data s = (Inr (), s\<lparr>user_input_queue := user_input_queue s @ [m]\<rparr>)"
    | (ignored) "on_message data s = (Inr (), s)"
    using on_message_cases [of data s] by blast
  then show ?thesis
  proof cases
    case roles
    with assms have "set_both k1 b1 k2 b2 s = (r, s')" by simp
    from set_both_frame [OF this] show ?thesis by simp
  next
    case raised
    with assms show ?thesis by simp
  next
    case queued
    with assms show ?thesis by auto
  next
    case ignored
    with assms show ?thesis by simp
  qed
qed

lemma on_message_phase_inv:
  "on_message data s = (r, s') \<Longrightarrow> phase_inv s \<Longrightarrow> phase_inv s'"
  using on_message_frame [of data s r s'] phase_inv_frame [of s' s] by simp

lemma step_phase_inv: "phase_inv s \<Longrightarrow> phase_inv (step be a s)"
proof (cases a)
  case Tick
  assume "phase_inv s"
  with Tick show ?thesis by (simp add: tick_phase_inv)
next
  case (Receive m)
  assume inv: "phase_inv s"
  show ?thesis
  proof (cases m)
    case None
    with Receive inv show ?thesis by (simp add: handler_exit_phase_inv)
  next
    case (Some data)
    obtain r s' where om: "on_message data s = (r, s')"
      by (cases "on_message data s")
    from on_message_phase_inv [OF om inv] om Receive Some inv show ?thesis
      by (cases r) (simp_all add: handler_exit_phase_inv)
  qed
next
  case Disconnect
  assume "phase_inv s"
  with Disconnect show ?thesis
    by (auto simp: phase_inv_def phases_def outbound_def split: option.splits)
next
  case EndOfStream
  assume "phase_inv s"
  with EndOfStream show ?thesis by (simp add: handler_exit_phase_inv)
qed

lemma exec_phase_inv: "phase_inv s \<Longrightarrow> phase_inv (exec be acts s)"
  by (induction acts arbitrary: s) (simp_all add: step_phase_inv)


text \<open>
  C1, as the code has it.  A session starts on a fresh connection.  Whatever the schedule
  of the simulation task, of the inbound messages and of the connection, once the
  simulation task has finished, exactly one \<open>phase_starts\<close> event was emitted, and it
  announces the opening statements.
\<close>

theorem only_opening_statements_started:
  assumes "simulation_task s = NotStarted" and "websocket s = Some ws" and "sent ws = []"
      and "simulation_task (exec be acts s) = Finished"
  shows "phases_started (outbound (exec be acts s)) = [''Opening Statements'']"
proof -
  have "phase_inv s"
    using assms(1-3) by (simp add: phase_inv_def phases_def outbound_def)
  then have "phase_inv (exec be acts s)"
    by (rule exec_phase_inv)
  with assms(4) show ?thesis
    by (simp add: phase_inv_def phases_def)
qed

theorem only_opening_statements_started_witness:
  "simulation_task doe_session = NotStarted \<and>
   websocket doe_session = Some \<lparr>is_open = True, sent = []\<rparr> \<and>
   simulation_task (exec steady [Tick, Tick, Tick, Tick, Tick] doe_session) = Finished \<and>
   phases_started (outbound (exec steady [Tick, Tick, Tick, Tick, Tick] doe_session)) =
     [''Opening Statements'']"
proof -
  have t: "simulation_task doe_session = NotStarted"
    and w: "websocket doe_session = Some \<lparr>is_open = True, sent = []\<rparr>"
    by (simp_all add: doe_session_def)
  have e: "sent \<lparr>is_open = True, sent = []\<rparr> = []"
    by simp
  from only_opening_statements_started [OF t w e doe_run_finished] t w doe_run_finished
  show ?thesis by simp
qed

text \<open>The claim of C1 fails: a session that ran to completion has announced one phase,
  not the six of the enumeration.\<close>

theorem six_phases_counterexample:
  "simulation_task (exec steady [Tick, Tick, Tick, Tick, Tick] doe_session) = Finished \<and>
   phases_started (outbound (exec steady [Tick, Tick, Tick, Tick, Tick] doe_session)) =
     [''Opening Statements''] \<and>
   length (phases_started (outbound (exec steady [Tick, Tick, Tick, Tick, Tick] doe_session))) \<noteq>
     length trial_phases"
  by (simp only: doe_run_finished doe_run_outbound) (simp add: trial_phases_def)

section \<open>Failures of the generation service\<close>

lemma generate_failure: "failure r \<Longrightarrow> error_indicator (generate prov r)"
  by (cases prov; cases r) (simp_all add: error_indicator_def error_prefixes_def)

lemma tick_finish:
  assumes "simulation_task s = Spoke DefenseLawyer" "websocket s = Some ws" "is_open ws"
  shows "tick be s =
     s\<lparr>websocket := Some (ws\<lparr>sent := sent ws @ [trial_finished]\<rparr>), simulation_task := Finished\<rparr>"
  using assms by (simp add: tick_def send_event_def send_def)

lemma turn_completes:
  assumes "websocket s = Some ws" "is_open ws"
      and "agents s (key_of who) = Some a" "map_of (persona a) ''name'' = Some n"
  shows "\<exists>s'. turn be who prompt s =
           (Inr (if is_user_controlled a then AwaitingInput who else Spoke who), s')"
proof (cases "is_user_controlled a")
  case True
  with human_turn_begin [OF assms, of be prompt] show ?thesis by simp
next
  case False
  from assms(4) obtain built where
    "build_prompt (a\<lparr>memory := memory a @ [''Heard: '' @ prompt]\<rparr>) = Inr built"
    using build_prompt_named [of "a\<lparr>memory := memory a @ [''Heard: '' @ prompt]\<rparr>" n] by auto
  from autonomous_turn [OF assms False this, of be] False show ?thesis by simp
qed

text \<open>
  C5.  The step of an autonomous participant starts on an open channel, and the request
  to the generation service fails.  The step emits exactly one event, \<open>agent_speaks\<close> with
  the name of the participant and a text that starts with one of the error texts of
  \<open>generate\<close>; the text is recorded in the memory as said; the simulation task has not
  failed but stands after the step; and its next run goes on with the next step: the
  defense lawyer after the prosecutor, the end of the trial after the defense lawyer.
\<close>

theorem backend_failure_turn:
  assumes ws: "websocket s = Some ws" "is_open ws"
      and p: "agents s ''prosecutor'' = Some p" "map_of (persona p) ''name'' = Some pn"
      and d: "agents s ''defense_lawyer'' = Some d" "map_of (persona d) ''name'' = Some dn"
      and a: "agents s (key_of who) = Some a" "map_of (persona a) ''name'' = Some n"
             "\<not> is_user_controlled a"
      and t: "simulation_task s = turn_start who"
      and f: "\<forall>prompt. failure (be (length (requests s)) prompt)"
  shows "\<exists>msg. error_indicator msg \<and>
           outbound (tick be s) = outbound s @ [agent_speaks n (PStr msg)] \<and>
           agents (tick be s) (key_of who) =
             Some (a\<lparr>memory := memory a @
                     [''Heard: '' @ context_prompt who (the_case s) pn dn, ''Said: '' @ msg]\<rparr>) \<and>
           simulation_task (tick be s) = Spoke who \<and>
           simulation_task (tick be (tick be s)) =
             (case who of
                Prosecutor \<Rightarrow> if is_user_controlled d then AwaitingInput DefenseLawyer
                              else Spoke DefenseLawyer
              | DefenseLawyer \<Rightarrow> Finished)"
proof -
  let ?prompt = "context_prompt who (the_case s) pn dn"
  obtain built where b: "build_prompt (a\<lparr>memory := memory a @ [''Heard: '' @ ?prompt]\<rparr>) = Inr built"
    using build_prompt_named [of "a\<lparr>memory := memory a @ [''Heard: '' @ ?prompt]\<rparr>" n] a(2) by auto
  let ?msg = "generate (llm_provider a) (be (length (requests s)) built)"
  let ?ws1 = "ws\<lparr>sent := sent ws @ [agent_speaks n (PStr ?msg)]\<rparr>"
  let ?a1 = "a\<lparr>memory := memory a @ [''Heard: '' @ ?prompt, ''Said: '' @ ?msg]\<rparr>"
  let ?s1 = "s\<lparr>agents := (agents s)(key_of who \<mapsto> ?a1), requests := requests s @ [built],
               websocket := Some ?ws1, simulation_task := Spoke who\<rparr>"
  have s1: "tick be s = ?s1"
    using tick_turn [OF t p d autonomous_turn [OF ws a b]] by simp
  have ind: "error_indicator ?msg"
    using f by (simp add: generate_failure)
  have nxt: "simulation_task (tick be ?s1) =
      (case who of
         Prosecutor \<Rightarrow> if is_user_controlled d then AwaitingInput DefenseLawyer else Spoke DefenseLawyer
       | DefenseLawyer \<Rightarrow> Finished)"
  proof (cases who)
    case DefenseLawyer
    have "tick be ?s1 =
        ?s1\<lparr>websocket := Some (?ws1\<lparr>sent := sent ?ws1 @ [trial_finished]\<rparr>), simulation_task := Finished\<rparr>"
      using ws DefenseLawyer by (intro tick_finish) simp_all
    with DefenseLawyer show ?thesis by simp
  next
    case Prosecutor
    have ap: "a = p" using a(1) p(1) Prosecutor by simp
    have w1: "websocket ?s1 = Some ?ws1" "is_open ?ws1"
      using ws by simp_all
    have p1: "agents ?s1 ''prosecutor'' = Some ?a1" "map_of (persona ?a1) ''name'' = Some pn"
      using Prosecutor ap p(2) by simp_all
    have d1: "agents ?s1 ''defense_lawyer'' = Some d"
      using Prosecutor d(1) by simp
    have dk: "agents ?s1 (key_of DefenseLawyer) = Some d"
      using d1 by simp
    have t1: "simulation_task ?s1 = turn_start DefenseLawyer"
      using Prosecutor by simp
    obtain s2 where
      "turn be DefenseLawyer (context_prompt DefenseLawyer (the_case ?s1) pn dn) ?s1 =
         (Inr (if is_user_controlled d then AwaitingInput DefenseLawyer else Spoke DefenseLawyer), s2)"
      using turn_completes [OF w1 dk d(2)] by blast
    from tick_turn [OF t1 p1 d1 d(2) this] Prosecutor show ?thesis by simp
  qed
  have "error_indicator ?msg \<and>
        outbound (tick be s) = outbound s @ [agent_speaks n (PStr ?msg)] \<and>
        agents (tick be s) (key_of who) = Some ?a1 \<and>
        simulation_task (tick be s) = Spoke who \<and>
        simulation_task (tick be (tick be s)) =
          (case who of
             Prosecutor \<Rightarrow> if is_user_controlled d then AwaitingInput DefenseLawyer else Spoke DefenseLawyer
           | DefenseLawyer \<Rightarrow> Finished)"
    using ind nxt by (simp only: s1) (simp add: outbound_def ws)
  then show ?thesis by blast
qed

lemma doe_announced_facts:
  "websocket doe_announced =
     Some \<lparr>is_open = True,
           sent = [trial_starts (PStr ''State v. Doe''), phase_starts ''Opening Statements'']\<rparr>"
  "agents doe_announced ''prosecutor'' = Some (prosecutor_of (person (PStr ''Ann'')))"
  "agents doe_announced ''defense_lawyer'' = Some (defense_lawyer_of (person (PStr ''Bob'')))"
  "simulation_task doe_announced = SentPhaseStarts"
  "user_input_queue doe_announced = []"
  "receiving doe_announced"
  "requests doe_announced = []"
  by (simp_all add: doe_announced_def run_defs doe_defs)

lemma doe_names:
  "map_of (persona (prosecutor_of (person (PStr ''Ann'')))) ''name'' = Some (PStr ''Ann'')"
  "map_of (persona (defense_lawyer_of (person (PStr ''Bob'')))) ''name'' = Some (PStr ''Bob'')"
  "\<not> is_user_controlled (prosecutor_of (person (PStr ''Ann'')))"
  "\<not> is_user_controlled (defense_lawyer_of (person (PStr ''Bob'')))"
  by (simp_all add: doe_defs)

theorem backend_failure_turn_witness:
  "\<exists>msg. error_indicator msg \<and>
     outbound (tick down doe_announced) =
       [trial_starts (PStr ''State v. Doe''), phase_starts ''Opening Statements'',
        agent_speaks (PStr ''Ann'') (PStr msg)] \<and>
     simulation_task (tick down doe_announced) = Spoke Prosecutor \<and>
     simulation_task (tick down (tick down doe_announced)) = Spoke DefenseLawyer"
proof -
  have ws: "is_open \<lparr>is_open = True,
      sent = [trial_starts (PStr ''State v. Doe''), phase_starts ''Opening Statements'']\<rparr>"
    by simp
  have a: "agents doe_announced (key_of Prosecutor) = Some (prosecutor_of (person (PStr ''Ann'')))"
    by (simp add: doe_announced_facts)
  have t: "simulation_task doe_announced = turn_start Prosecutor"
    by (simp add: doe_announced_facts)
  have f: "\<forall>prompt. failure (down (length (requests doe_announced)) prompt)"
    by (simp add: down_def)
  from backend_failure_turn [where be = down and s = doe_announced and who = Prosecutor,
        OF doe_announced_facts(1) ws doe_announced_facts(2) doe_names(1)
        doe_announced_facts(3) doe_names(2) a doe_names(1) doe_names(3) t f]
  show ?thesis
    by (simp add: outbound_def doe_announced_facts(1) doe_names) blast
qed

section \<open>The event that asks for input\<close>

text \<open>
  C3 at a session of \<open>handler\<close>: the client takes the role of the defense during the
  sleep after the turn of the prosecutor.  The step of the defense lawyer suspends after
  an event \<open>request_user_input\<close> whose role is \<open>unknown\<close>: no persona that
  \<open>create_courtroom_agents\<close> builds has an entry \<open>role\<close>.
\<close>

theorem request_user_input_names_no_role:
  "handler_setup doe_files (Some ''sk'') = Inr doe_session \<and>
   simulation_task
     (exec steady [Tick, Tick, Tick, Receive (Some (set_role ''defense'')), Tick] doe_session) =
     AwaitingInput DefenseLawyer \<and>
   outbound
     (exec steady [Tick, Tick, Tick, Receive (Some (set_role ''defense'')), Tick] doe_session) =
     doe_spoken @ [request_user_input (PStr ''unknown'')]"
  by (simp only: doe_setup) (simp add: doe_spoken_def run_defs doe_defs get_or_def)

section \<open>A closed channel\<close>

lemma autonomous_turn_closed:
  assumes "websocket s = Some ws" "\<not> is_open ws"
      and "agents s (key_of who) = Some a" "map_of (persona a) ''name'' = Some n"
          "\<not> is_user_controlled a"
      and "build_prompt (a\<lparr>memory := memory a @ [''Heard: '' @ prompt]\<rparr>) = Inr built"
  shows "turn be who prompt s =
     (Inl ConnectionClosed,
      s\<lparr>agents := (agents s)(key_of who \<mapsto>
           a\<lparr>memory := memory a @ [''Heard: '' @ prompt,
                ''Said: '' @ generate (llm_provider a) (be (length (requests s)) built)]\<rparr>),
        requests := requests s @ [built]\<rparr>)"
  using assms
  by (simp add: turn_def get_agent_action_def listen_def act_def speaks_def send_event_def
        send_def Let_def)

lemma tick_turn_raises:
  assumes "simulation_task s = turn_start who"
      and "agents s ''prosecutor'' = Some p" "map_of (persona p) ''name'' = Some pn"
      and "agents s ''defense_lawyer'' = Some d" "map_of (persona d) ''name'' = Some dn"
      and "turn be who (context_prompt who (the_case s) pn dn) s = (Inl e, s')"
  shows "tick be s = s'\<lparr>simulation_task := Failed e\<rparr>"
  using assms by (cases who) (simp_all add: tick_def)

lemma tick_done:
  "simulation_task s = Failed e \<Longrightarrow> tick be s = s"
  "simulation_task s = Finished \<Longrightarrow> tick be s = s"
  "simulation_task s = Cancelled \<Longrightarrow> tick be s = s"
  by (simp_all add: tick_def)

text \<open>
  C7, as the code has it.  On a channel that is closed \<open>send_event\<close> raises
  \<open>ConnectionClosed\<close>; it is silent only for a controller without a websocket.  An
  autonomous step that starts on the closed channel is not cut short: the request to the
  generation service is made and the utterance is recorded in the memory of the
  participant.  The emission of \<open>agent_speaks\<close> then raises, the simulation task ends
  with that exception, and nothing is emitted, now or later.
\<close>

theorem closed_channel_ends_task:
  assumes ws: "websocket s = Some ws" "\<not> is_open ws"
      and p: "agents s ''prosecutor'' = Some p" "map_of (persona p) ''name'' = Some pn"
      and d: "agents s ''defense_lawyer'' = Some d" "map_of (persona d) ''name'' = Some dn"
      and a: "agents s (key_of who) = Some a" "map_of (persona a) ''name'' = Some n"
             "\<not> is_user_controlled a"
      and t: "simulation_task s = turn_start who"
  shows "send_event ev s = (Inl ConnectionClosed, s) \<and>
         send_event ev (s\<lparr>websocket := None\<rparr>) = (Inr (), s\<lparr>websocket := None\<rparr>) \<and>
         simulation_task (tick be s) = Failed ConnectionClosed \<and>
         outbound (tick be s) = outbound s \<and>
         length (requests (tick be s)) = length (requests s) + 1 \<and>
         (\<exists>msg. agents (tick be s) (key_of who) =
            Some (a\<lparr>memory := memory a @
                    [''Heard: '' @ context_prompt who (the_case s) pn dn, ''Said: '' @ msg]\<rparr>)) \<and>
         tick be (tick be s) = tick be s"
proof -
  let ?prompt = "context_prompt who (the_case s) pn dn"
  obtain built where b: "build_prompt (a\<lparr>memory := memory a @ [''Heard: '' @ ?prompt]\<rparr>) = Inr built"
    using build_prompt_named [of "a\<lparr>memory := memory a @ [''Heard: '' @ ?prompt]\<rparr>" n] a(2) by auto
  let ?msg = "generate (llm_provider a) (be (length (requests s)) built)"
  let ?a1 = "a\<lparr>memory := memory a @ [''Heard: '' @ ?prompt, ''Said: '' @ ?msg]\<rparr>"
  let ?s1 = "s\<lparr>agents := (agents s)(key_of who \<mapsto> ?a1), requests := requests s @ [built],
               simulation_task := Failed ConnectionClosed\<rparr>"
  have s1: "tick be s = ?s1"
    using tick_turn_raises [OF t p d autonomous_turn_closed [OF ws a b]] by simp
  have s2: "tick be ?s1 = ?s1"
    by (rule tick_done(1) [of _ ConnectionClosed]) simp
  have e1: "send_event ev s = (Inl ConnectionClosed, s)"
    using ws by (simp add: send_event_def send_def)
  have e2: "send_event ev (s\<lparr>websocket := None\<rparr>) = (Inr (), s\<lparr>websocket := None\<rparr>)"
    by (simp add: send_event_def)
  have m: "agents ?s1 (key_of who) = Some ?a1"
    by simp
  show ?thesis
    unfolding s1 s2 using e1 e2 m by (auto simp: outbound_def)
qed

theorem closed_channel_ends_task_witness:
  "simulation_task (step steady Disconnect doe_announced) = turn_start Prosecutor \<and>
   outbound (step steady Disconnect doe_announced) =
     [trial_starts (PStr ''State v. Doe''), phase_starts ''Opening Statements''] \<and>
   send_event trial_finished (step steady Disconnect doe_announced) =
     (Inl ConnectionClosed, step steady Disconnect doe_announced) \<and>
   simulation_task (tick steady (step steady Disconnect doe_announced)) = Failed ConnectionClosed \<and>
   outbound (tick steady (step steady Disconnect doe_announced)) =
     [trial_starts (PStr ''State v. Doe''), phase_starts ''Opening Statements''] \<and>
   length (requests (tick steady (step steady Disconnect doe_announced))) = 1"
proof -
  let ?s = "step steady Disconnect doe_announced"
  let ?ws = "\<lparr>is_open = False,
      sent = [trial_starts (PStr ''State v. Doe''), phase_starts ''Opening Statements'']\<rparr>"
  have w: "websocket ?s = Some ?ws" and c: "\<not> is_open ?ws"
    and p: "agents ?s ''prosecutor'' = Some (prosecutor_of (person (PStr ''Ann'')))"
    and d: "agents ?s ''defense_lawyer'' = Some (defense_lawyer_of (person (PStr ''Bob'')))"
    and a: "agents ?s (key_of Prosecutor) = Some (prosecutor_of (person (PStr ''Ann'')))"
    and t: "simulation_task ?s = turn_start Prosecutor"
    and r: "requests ?s = []"
    by (simp_all add: doe_announced_facts)
  have ob: "outbound ?s = [trial_starts (PStr ''State v. Doe''), phase_starts ''Opening Statements'']"
    by (simp add: outbound_def doe_announced_facts)
  note th = closed_channel_ends_task [OF w c p doe_names(1) d doe_names(2) a doe_names(1)
      doe_names(3) t, of trial_finished steady]
  from th have "send_event trial_finished ?s = (Inl ConnectionClosed, ?s)"
    and "simulation_task (tick steady ?s) = Failed ConnectionClosed"
    and "outbound (tick steady ?s) = outbound ?s"
    and "length (requests (tick steady ?s)) = length (requests ?s) + 1"
    by blast+
  with t ob r show ?thesis
    by (simp del: step.simps)
qed

text \<open>The claim of C7 fails: the client goes away during the sleep after the turn of
  the prosecutor; the next emission raises, and the simulation task ends with the
  exception instead of finishing.\<close>

theorem silent_emission_counterexample:
  "fst (send_event trial_finished (exec steady [Tick, Tick, Tick, Disconnect] doe_session)) =
     Inl ConnectionClosed \<and>
   simulation_task (exec steady [Tick, Tick, Tick, Disconnect] doe_session) = Spoke Prosecutor \<and>
   simulation_task (exec steady [Tick, Tick, Tick, Disconnect, Tick] doe_session) =
     Failed ConnectionClosed"
  by (simp add: run_defs doe_defs)

section \<open>Setting a session up\<close>

lemma openai_provider:
  "k \<noteq> [] \<Longrightarrow> get_llm_provider (Some k) ''openai'' = Inr (OpenAIProvider k)"
  by (simp add: get_llm_provider_def lower_def lower_char_def)

lemma subscript_lawyer: "(\<exists>v. subscript party ''lawyer'' = Inr v) = has_lawyer party"
  by (cases party) (auto split: option.splits)

lemma create_courtroom_agents_succeeds:
  assumes "k \<noteq> []"
  shows "(\<exists>ags. create_courtroom_agents (Some k) c ''openai'' = Inr ags) =
         (has_lawyer (plaintiff c) \<and> has_lawyer (defendant c))"
proof (cases "subscript (plaintiff c) ''lawyer''")
  case (Inl e)
  then have "\<not> has_lawyer (plaintiff c)"
    using subscript_lawyer [of "plaintiff c"] by simp
  with Inl assms show ?thesis
    by (simp add: create_courtroom_agents_def TinyPerson_init_def openai_provider)
next
  case pl: (Inr pl)
  then have hp: "has_lawyer (plaintiff c)"
    using subscript_lawyer [of "plaintiff c"] by simp
  show ?thesis
  proof (cases "subscript (defendant c) ''lawyer''")
    case (Inl e)
    then have "\<not> has_lawyer (defendant c)"
      using subscript_lawyer [of "defendant c"] by simp
    with Inl pl assms show ?thesis
      by (simp add: create_courtroom_agents_def TinyPerson_init_def openai_provider)
  next
    case (Inr dl)
    then have "has_lawyer (defendant c)"
      using subscript_lawyer [of "defendant c"] by simp
    with Inr pl hp assms show ?thesis
      by (simp add: create_courtroom_agents_def TinyPerson_init_def openai_provider)
  qed
qed

lemma Case_init_fields:
  "Case_init (PDict kvs) = Inr c \<Longrightarrow>
   plaintiff c = get_or kvs ''plaintiff'' PNone \<and> defendant c = get_or kvs ''defendant'' PNone \<and>
   title c = get_or kvs ''title'' PNone \<and> summary c = get_or kvs ''summary'' PNone"
  by auto

lemma Case_init_fails: "(\<exists>c. Case_init doc = Inr c) = (\<exists>kvs. doc = PDict kvs)"
  by (cases doc) simp_all

text \<open>
  C8, as the code has it.  With an API key in the environment, the setup of a session
  raises exactly when the case file is not usable: it is missing, it is not JSON, its
  document is not an object, or \<open>plaintiff\<close> or \<open>defendant\<close> is not an object with a
  \<open>lawyer\<close>.  A missing file and a text that is not JSON raise the exceptions of
  \<open>load_case\<close>.  Title and summary are not required.
\<close>

theorem setup_fails_iff_unusable:
  assumes "k \<noteq> []"
  shows "((\<exists>e. handler_setup fs (Some k) = Inl e) = (\<not> usable_case (fs ''cases/case-001.json''))) \<and>
         (fs ''cases/case-001.json'' = FileNotFound \<longrightarrow>
            handler_setup fs (Some k) = Inl (Exception ''Case file not found at: cases/case-001.json'')) \<and>
         (fs ''cases/case-001.json'' = NotJSON \<longrightarrow>
            handler_setup fs (Some k) =
              Inl (Exception ''Error decoding JSON from file: cases/case-001.json''))"
proof (cases "fs ''cases/case-001.json''")
  case FileNotFound
  then show ?thesis by (simp add: handler_setup_def load_case_def)
next
  case NotJSON
  then show ?thesis by (simp add: handler_setup_def load_case_def)
next
  case (Document doc)
  show ?thesis
  proof (cases "\<exists>kvs. doc = PDict kvs")
    case False
    then have "\<not> usable_case (Document doc)"
      by (cases doc) simp_all
    moreover from False have "\<exists>e. Case_init doc = Inl e"
      by (cases doc) simp_all
    ultimately show ?thesis
      using Document by (auto simp: handler_setup_def load_case_def)
  next
    case True
    then obtain kvs where doc: "doc = PDict kvs" by blast
    obtain c where c: "Case_init doc = Inr c"
      using doc by simp
    from c doc have f: "plaintiff c = get_or kvs ''plaintiff'' PNone"
        "defendant c = get_or kvs ''defendant'' PNone"
      by auto
    have u: "usable_case (Document doc) = (has_lawyer (plaintiff c) \<and> has_lawyer (defendant c))"
      using doc f by simp
    show ?thesis
    proof (cases "create_courtroom_agents (Some k) c ''openai''")
      case (Inl e)
      with create_courtroom_agents_succeeds [OF assms, of c] u
      have "\<not> usable_case (Document doc)" by simp
      with Inl Document c show ?thesis
        by (simp add: handler_setup_def load_case_def)
    next
      case (Inr ags)
      with create_courtroom_agents_succeeds [OF assms, of c] u
      have "usable_case (Document doc)" by auto
      with Inr Document c show ?thesis
        by (simp add: handler_setup_def load_case_def)
    qed
  qed
qed

theorem setup_fails_iff_unusable_witness:
  "''sk'' \<noteq> [] \<and> \<not> usable_case (no_files ''cases/case-001.json'') \<and>
   handler_setup no_files (Some ''sk'') =
     Inl (Exception ''Case file not found at: cases/case-001.json'') \<and>
   usable_case (untitled_files ''cases/case-001.json'') \<and>
   (\<exists>e. handler_setup untitled_files (Some ''sk'') = Inl e) = False"
proof -
  have k: "''sk'' \<noteq> []" by simp
  have n: "no_files ''cases/case-001.json'' = FileNotFound"
    by (simp add: no_files_def)
  have u: "usable_case (untitled_files ''cases/case-001.json'')"
    by (simp add: untitled_files_def untitled_case_def get_or_def)
  from setup_fails_iff_unusable [OF k, of no_files] setup_fails_iff_unusable [OF k, of untitled_files]
    n u show ?thesis
    by simp
qed

lemma untitled_setup: "handler_setup untitled_files (Some ''sk'') = Inr untitled_session"
  by (simp add: handler_setup_def load_case_def untitled_files_def untitled_case_def get_or_def
        create_courtroom_agents_def TinyPerson_init_def get_llm_provider_def lower_def
        lower_char_def untitled_session_def doe_session_def person_def)

text \<open>The claim of C8 fails: a case file that is valid JSON and has neither title nor
  summary sets a session up, and the session starts and emits \<open>trial_starts\<close> with no
  title.\<close>

theorem missing_title_counterexample:
  "handler_setup untitled_files (Some ''sk'') = Inr untitled_session \<and>
   simulation_task (tick steady untitled_session) = SentTrialStarts \<and>
   outbound (tick steady untitled_session) = [trial_starts PNone]"
  by (simp only: untitled_setup) (simp add: untitled_session_def run_defs doe_defs)

section \<open>Modes of the participants\<close>

lemma profile_memory [simp]: "profile (a\<lparr>memory := m\<rparr>) = profile a"
  by (simp add: profile_def)



lemma profiles_update [simp]:
  "profiles (s\<lparr>simulation_task := t\<rparr>) = profiles s"
  "profiles (s\<lparr>websocket := w\<rparr>) = profiles s"
  "profiles (s\<lparr>user_input_queue := q\<rparr>) = profiles s"
  "profiles (s\<lparr>phase := ph\<rparr>) = profiles s"
  "profiles (s\<lparr>requests := c\<rparr>) = profiles s"
  "profiles (s\<lparr>receiving := b\<rparr>) = profiles s"
  by (rule ext, simp add: profiles_def)+















lemma on_message_roles:
  assumes "agents s ''prosecutor'' = Some p" "agents s ''defense_lawyer'' = Some d"
      and "subscript data ''event'' = Inr (PStr ''set_role'')" "subscript data ''role'' = Inr role"
  shows "on_message data s =
     (Inr (), s\<lparr>agents := (agents s)
        (''prosecutor'' \<mapsto> p\<lparr>is_user_controlled := (role = PStr ''prosecutor'')\<rparr>,
         ''defense_lawyer'' \<mapsto> d\<lparr>is_user_controlled := (role = PStr ''defense'')\<rparr>)\<rparr>)"
proof -
  have tw: "\<And>x y. (agents s)(''defense_lawyer'' \<mapsto> y, ''prosecutor'' \<mapsto> x) =
                   (agents s)(''prosecutor'' \<mapsto> x, ''defense_lawyer'' \<mapsto> y)"
    by (rule fun_upd_twist) simp
  show ?thesis
    using assms
    by (cases "role = PStr ''prosecutor''"; cases "role = PStr ''defense''")
       (simp_all add: on_message_def set_both_def set_user_controlled_def tw)
qed

lemma on_message_set_role:
  assumes "agents s ''prosecutor'' = Some p" "agents s ''defense_lawyer'' = Some d"
  shows "on_message (set_role r) s =
     (Inr (), s\<lparr>agents := (agents s)
        (''prosecutor'' \<mapsto> p\<lparr>is_user_controlled := (r = ''prosecutor'')\<rparr>,
         ''defense_lawyer'' \<mapsto> d\<lparr>is_user_controlled := (r = ''defense'')\<rparr>)\<rparr>)"
  using on_message_roles [OF assms, of "set_role r" "PStr r"]
  by (simp add: set_role_def)















section \<open>Assigning a role\<close>





lemma receive_set_role:
  assumes "receiving s" "agents s ''prosecutor'' = Some p" "agents s ''defense_lawyer'' = Some d"
  shows "step be (Receive (Some (set_role r))) s =
     s\<lparr>agents := (agents s)
        (''prosecutor'' \<mapsto> p\<lparr>is_user_controlled := (r = ''prosecutor'')\<rparr>,
         ''defense_lawyer'' \<mapsto> d\<lparr>is_user_controlled := (r = ''defense'')\<rparr>)\<rparr>"
  using assms(1) on_message_set_role [OF assms(2,3), of r] by simp





section \<open>The queue of inputs\<close>

lemma send_event_queue: "send_event ev s = (r, s') \<Longrightarrow> user_input_queue s' = user_input_queue s"
  by (auto simp: send_event_def split: option.splits sum.splits)

lemma get_agent_action_queue:
  assumes "get_agent_action be k prompt s = (r, s')"
  shows "user_input_queue s' = user_input_queue s"
proof (cases "agents s k")
  case None
  with assms show ?thesis by (simp add: get_agent_action_def)
next
  case (Some a)
  show ?thesis
  proof (cases "listen prompt a")
    case (Inl e)
    with Some assms show ?thesis by (simp add: get_agent_action_def)
  next
    case (Inr a1)
    let ?s1 = "s\<lparr>agents := (agents s)(k \<mapsto> a1)\<rparr>"
    show ?thesis
    proof (cases "is_user_controlled a1")
      case True
      obtain r2 s2 where se: "send_event (request_user_input (get_or (persona a1) ''role'' (PStr ''unknown''))) ?s1 = (r2, s2)"
        by (cases "send_event (request_user_input (get_or (persona a1) ''role'' (PStr ''unknown''))) ?s1")
      have "s' = s2"
        using assms Some Inr True se by (cases r2) (simp_all add: get_agent_action_def)
      with send_event_queue [OF se] show ?thesis by simp
    next
      case False
      show ?thesis
      proof (cases "act be a1 (requests ?s1)")
        case (Inl e)
        with assms Some Inr False show ?thesis
          by (auto simp: get_agent_action_def)
      next
        case act: (Inr res)
        obtain response a2 calls where res: "res = (response, a2, calls)"
          by (cases res)
        have "s' = ?s1\<lparr>agents := (agents ?s1)(k \<mapsto> a2), requests := calls\<rparr>"
          using assms Some Inr False act res by (simp add: get_agent_action_def)
        then show ?thesis by simp
      qed
    qed
  qed
qed

lemma speaks_queue: "speaks who statement s = (r, s') \<Longrightarrow> user_input_queue s' = user_input_queue s"
  by (auto simp: speaks_def split: option.splits sum.splits prod.splits dest: send_event_queue)

lemma turn_queue:
  assumes "turn be who prompt s = (r, s')"
  shows "user_input_queue s' = user_input_queue s"
proof -
  obtain r1 s1 where g: "get_agent_action be (key_of who) prompt s = (r1, s1)"
    by (cases "get_agent_action be (key_of who) prompt s")
  note g1 = get_agent_action_queue [OF g]
  show ?thesis
  proof (cases r1)
    case (Inl e)
    with assms g g1 show ?thesis by (simp add: turn_def)
  next
    case (Inr o1)
    show ?thesis
    proof (cases o1)
      case None
      with assms g g1 Inr show ?thesis by (simp add: turn_def)
    next
      case (Some statement)
      with assms g Inr have "speaks who statement s1 = (r, s')"
        by (simp add: turn_def)
      from speaks_queue [OF this] g1 show ?thesis by simp
    qed
  qed
qed

lemma get_agent_action_resume_queue:
  assumes "get_agent_action_resume k s = (r, s')"
  shows "user_input_queue s' = user_input_queue s \<or>
         (user_input_queue s \<noteq> [] \<and> user_input_queue s' = tl (user_input_queue s))"
  using assms
  by (auto simp: get_agent_action_resume_def split: list.splits option.splits)

lemma resume_queue:
  assumes "resume be t s = (r, s')"
  shows "user_input_queue s' = user_input_queue s \<or>
         ((\<exists>who. t = AwaitingInput who) \<and> user_input_queue s \<noteq> [] \<and>
          user_input_queue s' = tl (user_input_queue s))"
proof (cases t)
  case NotStarted
  obtain r1 s1 where se: "send_event (trial_starts (title (the_case s))) s = (r1, s1)"
    by (cases "send_event (trial_starts (title (the_case s))) s")
  with assms NotStarted have "s' = s1" by (cases r1) auto
  with send_event_queue [OF se] show ?thesis by simp
next
  case SentTrialStarts
  let ?s0 = "s\<lparr>phase := OPENING_STATEMENTS\<rparr>"
  obtain r1 s1 where se: "send_event (phase_starts ''Opening Statements'') ?s0 = (r1, s1)"
    by (cases "send_event (phase_starts ''Opening Statements'') ?s0")
  with assms SentTrialStarts have "s' = s1" by (cases r1) auto
  with send_event_queue [OF se] show ?thesis by simp
next
  case SentPhaseStarts
  show ?thesis
  proof (cases "agents s ''prosecutor'' = None \<or> agents s ''defense_lawyer'' = None")
    case True
    with assms SentPhaseStarts show ?thesis by (auto split: option.splits)
  next
    case False
    with assms SentPhaseStarts have "turn be Prosecutor (prompt_p (the_case s)) s = (r, s')"
      by auto
    from turn_queue [OF this] show ?thesis by simp
  qed
next
  case (AwaitingInput who)
  obtain r1 s1 where g: "get_agent_action_resume (key_of who) s = (r1, s1)"
    by (cases "get_agent_action_resume (key_of who) s")
  note g1 = get_agent_action_resume_queue [OF g]
  show ?thesis
  proof (cases r1)
    case (Inl e)
    with assms g g1 AwaitingInput show ?thesis by auto
  next
    case (Inr o1)
    show ?thesis
    proof (cases o1)
      case None
      with assms g g1 Inr AwaitingInput show ?thesis by auto
    next
      case (Some statement)
      with assms g Inr AwaitingInput have "speaks who statement s1 = (r, s')"
        by simp
      from speaks_queue [OF this] g1 AwaitingInput show ?thesis by auto
    qed
  qed
next
  case (Spoke who)
  show ?thesis
  proof (cases who)
    case Prosecutor
    show ?thesis
    proof (cases "\<exists>p d pn dn. agents s ''prosecutor'' = Some p \<and> agents s ''defense_lawyer'' = Some d \<and>
                    map_of (persona p) ''name'' = Some pn \<and> map_of (persona d) ''name'' = Some dn")
      case True
      then obtain p d pn dn where
        "agents s ''prosecutor'' = Some p" "agents s ''defense_lawyer'' = Some d"
        "map_of (persona p) ''name'' = Some pn" "map_of (persona d) ''name'' = Some dn"
        by blast
      with assms Spoke Prosecutor have "turn be DefenseLawyer (prompt_d pn dn) s = (r, s')"
        by simp
      from turn_queue [OF this] show ?thesis by simp
    next
      case False
      with assms Spoke Prosecutor show ?thesis
        by (auto split: option.splits)
    qed
  next
    case DefenseLawyer
    obtain r1 s1 where se: "send_event trial_finished s = (r1, s1)"
      by (cases "send_event trial_finished s")
    with assms Spoke DefenseLawyer have "s' = s1" by (cases r1) auto
    with send_event_queue [OF se] show ?thesis by simp
  qed
next
  case Finished
  with assms show ?thesis by simp
next
  case (Failed e)
  with assms show ?thesis by simp
next
  case Cancelled
  with assms show ?thesis by simp
qed

lemma tick_queue:
  "user_input_queue (tick be s) = user_input_queue s \<or>
   ((\<exists>who. simulation_task s = AwaitingInput who) \<and> user_input_queue s \<noteq> [] \<and>
    user_input_queue (tick be s) = tl (user_input_queue s))"
proof -
  obtain r s' where rs: "resume be (simulation_task s) s = (r, s')"
    by (cases "resume be (simulation_task s) s")
  have "user_input_queue (tick be s) = user_input_queue s'"
    using rs by (cases r) (simp_all add: tick_def)
  with resume_queue [OF rs] show ?thesis by simp
qed

lemma on_message_queue:
  assumes "on_message data s = (r, s')"
  shows "user_input_queue s' = user_input_queue s \<or>
         (\<exists>x. user_input_queue s' = user_input_queue s @ [x])"
proof -
  consider (roles) k1 b1 k2 b2 where "on_message data s = set_both k1 b1 k2 b2 s"
    | (raised) e where "on_message data s = (Inl e, s)"
    | (queued) m where "on_message data s = (Inr (), s\<lparr>user_input_queue := user_input_queue s @ [m]\<rparr>)"
    | (ignored) "on_message data s = (Inr (), s)"
    using on_message_cases [of data s] by blast
  then show ?thesis
  proof cases
    case roles
    with assms have "set_both k1 b1 k2 b2 s = (r, s')" by simp
    from set_both_frame [OF this] show ?thesis by simp
  next
    case raised
    with assms show ?thesis by simp
  next
    case queued
    with assms show ?thesis by auto
  next
    case ignored
    with assms show ?thesis by simp
  qed
qed

lemma step_queue:
  "user_input_queue (step be a s) = user_input_queue s \<or>
   (\<exists>x. user_input_queue (step be a s) = user_input_queue s @ [x]) \<or>
   (a = Tick \<and> (\<exists>who. simulation_task s = AwaitingInput who) \<and> user_input_queue s \<noteq> [] \<and>
    user_input_queue (step be a s) = tl (user_input_queue s))"
proof (cases a)
  case Tick
  with tick_queue [of be s] show ?thesis by auto
next
  case (Receive m)
  show ?thesis
  proof (cases m)
    case None
    with Receive show ?thesis by (simp add: handler_exit_def)
  next
    case (Some data)
    obtain r s' where om: "on_message data s = (r, s')"
      by (cases "on_message data s")
    from on_message_queue [OF om] om Receive Some show ?thesis
      by (cases r) (auto simp: handler_exit_def)
  qed
next
  case Disconnect
  then show ?thesis by simp
next
  case EndOfStream
  then show ?thesis by (simp add: handler_exit_def)
qed

section \<open>Input that arrives when no role awaits it\<close>

text \<open>
  C6, as the code has it.  A \<open>user_input\<close> message that arrives while \<open>handler\<close> receives,
  whether a role awaits input or not, emits no event and leaves the simulation task as
  it is, but it is not discarded: its text is put at the end of the queue.  No step of
  the session takes a text from the queue except the run of a simulation task that
  waits for input, which takes the oldest one.  And the step of a human-controlled role
  that starts on a queue that is not empty emits \<open>request_user_input\<close> and then, without
  any new input, \<open>agent_speaks\<close> with the oldest text of the queue, records that text in
  the memory of its participant as said and leaves the other texts in the queue.
\<close>

theorem early_input_is_queued:
  assumes ws: "websocket s = Some ws" "is_open ws"
      and p: "agents s ''prosecutor'' = Some p" "map_of (persona p) ''name'' = Some pn"
      and d: "agents s ''defense_lawyer'' = Some d" "map_of (persona d) ''name'' = Some dn"
      and a: "agents s (key_of who) = Some a" "map_of (persona a) ''name'' = Some n"
             "is_user_controlled a"
      and t: "simulation_task s = turn_start who"
      and q: "user_input_queue s = m # rest"
  shows "(receiving s0 \<longrightarrow>
            step be (Receive (Some (user_input t))) s0 =
              s0\<lparr>user_input_queue := user_input_queue s0 @ [PStr t]\<rparr>) \<and>
         (user_input_queue (step be ac s1) = user_input_queue s1 \<or>
          (\<exists>x. user_input_queue (step be ac s1) = user_input_queue s1 @ [x]) \<or>
          (ac = Tick \<and> (\<exists>w. simulation_task s1 = AwaitingInput w) \<and> user_input_queue s1 \<noteq> [] \<and>
           user_input_queue (step be ac s1) = tl (user_input_queue s1))) \<and>
         outbound (tick be (tick be s)) =
           outbound s @ [request_user_input (get_or (persona a) ''role'' (PStr ''unknown'')),
                         agent_speaks n m] \<and>
         agents (tick be (tick be s)) (key_of who) =
           Some (a\<lparr>memory := memory a @
                   [''Heard: '' @ context_prompt who (the_case s) pn dn, ''Said: '' @ str m]\<rparr>) \<and>
         user_input_queue (tick be (tick be s)) = rest \<and>
         simulation_task (tick be (tick be s)) = Spoke who"
proof -
  let ?prompt = "context_prompt who (the_case s) pn dn"
  let ?a1 = "a\<lparr>memory := memory a @ [''Heard: '' @ ?prompt]\<rparr>"
  let ?ws1 = "ws\<lparr>sent := sent ws @ [request_user_input (get_or (persona a) ''role'' (PStr ''unknown''))]\<rparr>"
  let ?s1 = "s\<lparr>agents := (agents s)(key_of who \<mapsto> ?a1), websocket := Some ?ws1,
               simulation_task := AwaitingInput who\<rparr>"
  have arrival: "receiving s0 \<longrightarrow>
      step be (Receive (Some (user_input t))) s0 =
        s0\<lparr>user_input_queue := user_input_queue s0 @ [PStr t]\<rparr>"
    by (simp add: on_message_user_input)
  have s1: "tick be s = ?s1"
    using tick_turn [OF t p d human_turn_begin [OF ws a]] by simp
  have s2: "tick be ?s1 =
      ?s1\<lparr>user_input_queue := rest,
          agents := (agents ?s1)(key_of who \<mapsto> ?a1\<lparr>memory := memory ?a1 @ [''Said: '' @ str m]\<rparr>),
          websocket := Some (?ws1\<lparr>sent := sent ?ws1 @ [agent_speaks n m]\<rparr>),
          simulation_task := Spoke who\<rparr>"
    using ws a q by (intro tick_awaiting) simp_all
  have s12: "tick be (tick be s) =
      ?s1\<lparr>user_input_queue := rest,
          agents := (agents ?s1)(key_of who \<mapsto> ?a1\<lparr>memory := memory ?a1 @ [''Said: '' @ str m]\<rparr>),
          websocket := Some (?ws1\<lparr>sent := sent ?ws1 @ [agent_speaks n m]\<rparr>),
          simulation_task := Spoke who\<rparr>"
    by (simp only: s1 s2)
  have turn: "outbound (tick be (tick be s)) =
        outbound s @ [request_user_input (get_or (persona a) ''role'' (PStr ''unknown'')),
                      agent_speaks n m] \<and>
      agents (tick be (tick be s)) (key_of who) =
        Some (a\<lparr>memory := memory a @ [''Heard: '' @ ?prompt, ''Said: '' @ str m]\<rparr>) \<and>
      user_input_queue (tick be (tick be s)) = rest \<and>
      simulation_task (tick be (tick be s)) = Spoke who"
    by (simp only: s12) (simp add: outbound_def ws)
  from conjI [OF arrival conjI [OF step_queue [of be ac s1] turn]] show ?thesis .
qed

lemma doe_two_early_facts:
  "websocket doe_two_early = Some \<lparr>is_open = True, sent = doe_spoken\<rparr>"
  "agents doe_two_early ''defense_lawyer'' = Some bob_human"
  "simulation_task doe_two_early = Spoke Prosecutor"
  "user_input_queue doe_two_early = [PStr ''first'', PStr ''second'']"
  "\<exists>p. agents doe_two_early ''prosecutor'' = Some p \<and>
       map_of (persona p) ''name'' = Some (PStr ''Ann'')"
  by (simp_all add: doe_two_early_def bob_human_def doe_spoken_def run_defs doe_defs)

theorem early_input_is_queued_witness:
  "simulation_task doe_two_early = turn_start DefenseLawyer \<and>
   is_user_controlled bob_human \<and>
   user_input_queue doe_two_early = [PStr ''first'', PStr ''second''] \<and>
   outbound (tick steady (tick steady doe_two_early)) =
     doe_spoken @ [request_user_input (PStr ''unknown''), agent_speaks (PStr ''Bob'') (PStr ''first'')] \<and>
   user_input_queue (tick steady (tick steady doe_two_early)) = [PStr ''second'']"
proof -
  obtain p where p: "agents doe_two_early ''prosecutor'' = Some p"
      "map_of (persona p) ''name'' = Some (PStr ''Ann'')"
    using doe_two_early_facts(5) by blast
  have ws: "is_open \<lparr>is_open = True, sent = doe_spoken\<rparr>"
    by simp
  have dn: "map_of (persona bob_human) ''name'' = Some (PStr ''Bob'')"
    by (simp add: bob_human_def doe_defs)
  have a: "agents doe_two_early (key_of DefenseLawyer) = Some bob_human"
    by (simp add: doe_two_early_facts)
  have h: "is_user_controlled bob_human"
    by (simp add: bob_human_def)
  have t: "simulation_task doe_two_early = turn_start DefenseLawyer"
    by (simp add: doe_two_early_facts)
  have role: "get_or (persona bob_human) ''role'' (PStr ''unknown'') = PStr ''unknown''"
    by (simp add: bob_human_def doe_defs get_or_def)
  note th = early_input_is_queued [OF doe_two_early_facts(1) ws p doe_two_early_facts(2) dn
        a dn h t doe_two_early_facts(4), of doe_two_early steady "''later''" Tick doe_two_early]
  have ob: "outbound doe_two_early = doe_spoken"
    by (simp add: outbound_def doe_two_early_facts(1))
  have c3: "outbound (tick steady (tick steady doe_two_early)) =
      doe_spoken @ [request_user_input (PStr ''unknown''), agent_speaks (PStr ''Bob'') (PStr ''first'')]"
    using th [THEN conjunct2, THEN conjunct2, THEN conjunct1] ob role by (simp only:)
  have c5: "user_input_queue (tick steady (tick steady doe_two_early)) = [PStr ''second'']"
    using th [THEN conjunct2, THEN conjunct2, THEN conjunct2, THEN conjunct2, THEN conjunct1]
    by (simp only:)
  from t h doe_two_early_facts(4) c3 c5 show ?thesis
    by (intro conjI)
qed

text \<open>The claim of C6 fails: the input arrives while the simulation task sleeps after the
  turn of the prosecutor, when no role awaits input, and it becomes the utterance of the
  defense lawyer, whose turn starts later.\<close>

theorem discarded_input_counterexample:
  "simulation_task (exec steady [Tick, Tick, Tick] doe_session) = Spoke Prosecutor \<and>
   outbound (exec steady [Tick, Tick, Tick] doe_session) = doe_spoken \<and>
   outbound (exec steady
      [Tick, Tick, Tick, Receive (Some (user_input ''stale'')), Receive (Some (set_role ''defense'')),
       Tick, Tick] doe_session) =
     doe_spoken @ [request_user_input (PStr ''unknown''), agent_speaks (PStr ''Bob'') (PStr ''stale'')]"
  by (simp add: doe_spoken_def run_defs doe_defs get_or_def)

section \<open>Messages during a wait\<close>

lemma on_message_no_utterance:
  assumes "on_message data s = (r, s')" and "subscript data ''event'' \<noteq> Inr (PStr ''user_input'')"
  shows "user_input_queue s' = user_input_queue s"
proof (cases "subscript data ''event''")
  case (Inl e)
  with assms show ?thesis by (simp add: on_message_def)
next
  case ev: (Inr ev)
  show ?thesis
  proof (cases "ev = PStr ''set_role''")
    case True
    show ?thesis
    proof (cases "subscript data ''role''")
      case (Inl e)
      with ev True assms show ?thesis by (simp add: on_message_def)
    next
      case (Inr role)
      with ev True have "\<exists>k1 b1 k2 b2. on_message data s = set_both k1 b1 k2 b2 s"
        by (cases "role = PStr ''prosecutor''"; cases "role = PStr ''defense''")
           (simp_all add: on_message_def, blast+)
      then obtain k1 b1 k2 b2 where "set_both k1 b1 k2 b2 s = (r, s')"
        using assms(1) by auto
      from set_both_frame [OF this] show ?thesis by simp
    qed
  next
    case False
    with ev assms show ?thesis
      by (simp add: on_message_def)
  qed
qed

lemma tick_waiting_outbound:
  assumes "simulation_task s = AwaitingInput who \<or> simulation_task s = Cancelled"
      and "user_input_queue s = []"
  shows "tick be s = s"
  using assms by (auto simp: tick_blocked tick_done)

lemma step_no_utterance:
  assumes t: "simulation_task s = AwaitingInput who" and q: "user_input_queue s = []"
      and n: "\<not> is_utterance ac"
  shows "(simulation_task (step be ac s) = AwaitingInput who \<or>
          simulation_task (step be ac s) = Cancelled) \<and>
         user_input_queue (step be ac s) = [] \<and> outbound (step be ac s) = outbound s"
proof (cases ac)
  case Tick
  with tick_blocked [OF t q, of be] t q show ?thesis by simp
next
  case (Receive m)
  show ?thesis
  proof (cases "receiving s")
    case False
    with Receive t q show ?thesis by simp
  next
    case True
    show ?thesis
    proof (cases m)
      case None
      with Receive True t q show ?thesis
        by (simp add: handler_exit_def outbound_def)
    next
      case (Some data)
      obtain r s' where om: "on_message data s = (r, s')"
        by (cases "on_message data s")
      from n Receive Some have "subscript data ''event'' \<noteq> Inr (PStr ''user_input'')"
        by simp
      from on_message_no_utterance [OF om this] on_message_frame [OF om] t q
      have "simulation_task s' = AwaitingInput who" "user_input_queue s' = []"
          "websocket s' = websocket s"
        by simp_all
      with om Receive Some True show ?thesis
        by (cases r) (simp_all add: handler_exit_def outbound_def)
    qed
  qed
next
  case Disconnect
  with t q show ?thesis
    by (cases "websocket s") (simp_all add: outbound_def)
next
  case EndOfStream
  with t q show ?thesis
    by (simp add: handler_exit_def outbound_def)
qed

lemma utterance_unblocks:
  assumes ws: "websocket s = Some ws" "is_open ws"
      and a: "agents s (key_of who) = Some a" "map_of (persona a) ''name'' = Some n"
      and t: "simulation_task s = AwaitingInput who"
      and q: "user_input_queue s = []" and r: "receiving s"
  shows "simulation_task (tick be (step be (Receive (Some (user_input t))) s)) = Spoke who \<and>
         outbound (tick be (step be (Receive (Some (user_input t))) s)) =
           outbound s @ [agent_speaks n (PStr t)] \<and>
         agents (tick be (step be (Receive (Some (user_input t))) s)) (key_of who) =
           Some (a\<lparr>memory := memory a @ [''Said: '' @ t]\<rparr>)"
proof -
  let ?s1 = "s\<lparr>user_input_queue := [PStr t]\<rparr>"
  have s1: "step be (Receive (Some (user_input t))) s = ?s1"
    using r q by (simp add: on_message_user_input)
  have s2: "tick be ?s1 =
      ?s1\<lparr>user_input_queue := [],
          agents := (agents ?s1)(key_of who \<mapsto> a\<lparr>memory := memory a @ [''Said: '' @ str (PStr t)]\<rparr>),
          websocket := Some (ws\<lparr>sent := sent ws @ [agent_speaks n (PStr t)]\<rparr>),
          simulation_task := Spoke who\<rparr>"
    using ws a t by (intro tick_awaiting) simp_all
  show ?thesis
    by (simp only: s1 s2) (simp add: outbound_def ws)
qed

text \<open>
  C9, as the code has it.  The turn of a role is suspended for input and the queue is
  empty.  A run of the simulation task changes nothing.  A \<open>set_role\<close> message is applied
  at once, writing the modes of both lawyers, and the turn stays suspended, also when
  the message takes the human-controlled mode from the waiting role.  No step of the
  session other than the arrival of a \<open>user_input\<close> message unblocks the turn: after it
  the task still waits or is cancelled, and nothing was emitted.  A \<open>user_input\<close>
  message, which names no role, unblocks the turn and is emitted as the utterance of the
  waiting role, whichever role is in human-controlled mode when it arrives.
\<close>

theorem waiting_turn:
  assumes ws: "websocket s = Some ws" "is_open ws"
      and p: "agents s ''prosecutor'' = Some p" "map_of (persona p) ''name'' = Some pn"
      and d: "agents s ''defense_lawyer'' = Some d" "map_of (persona d) ''name'' = Some dn"
      and t: "simulation_task s = AwaitingInput who"
      and q: "user_input_queue s = []" and r: "receiving s"
  shows "tick be s = s \<and>
         step be (Receive (Some (set_role ro))) s =
           s\<lparr>agents := (agents s)
              (''prosecutor'' \<mapsto> p\<lparr>is_user_controlled := (ro = ''prosecutor'')\<rparr>,
               ''defense_lawyer'' \<mapsto> d\<lparr>is_user_controlled := (ro = ''defense'')\<rparr>)\<rparr> \<and>
         tick be (step be (Receive (Some (set_role ro))) s) =
           step be (Receive (Some (set_role ro))) s \<and>
         (\<not> is_utterance ac \<longrightarrow>
            (simulation_task (tick be (step be ac s)) = AwaitingInput who \<or>
             simulation_task (tick be (step be ac s)) = Cancelled) \<and>
            outbound (tick be (step be ac s)) = outbound s) \<and>
         simulation_task (tick be (step be (Receive (Some (user_input t)))
            (step be (Receive (Some (set_role ro))) s))) = Spoke who \<and>
         outbound (tick be (step be (Receive (Some (user_input t)))
            (step be (Receive (Some (set_role ro))) s))) =
           outbound s @ [agent_speaks (case who of Prosecutor \<Rightarrow> pn | DefenseLawyer \<Rightarrow> dn) (PStr t)] \<and>
         simulation_task (tick be (step be (Receive (Some (user_input t))) s)) = Spoke who \<and>
         outbound (tick be (step be (Receive (Some (user_input t))) s)) =
           outbound s @ [agent_speaks (case who of Prosecutor \<Rightarrow> pn | DefenseLawyer \<Rightarrow> dn) (PStr t)]"
proof -
  let ?n = "case who of Prosecutor \<Rightarrow> pn | DefenseLawyer \<Rightarrow> dn"
  let ?p = "p\<lparr>is_user_controlled := (ro = ''prosecutor'')\<rparr>"
  let ?d = "d\<lparr>is_user_controlled := (ro = ''defense'')\<rparr>"
  let ?s1 = "s\<lparr>agents := (agents s)(''prosecutor'' \<mapsto> ?p, ''defense_lawyer'' \<mapsto> ?d)\<rparr>"
  have c1: "tick be s = s"
    by (rule tick_blocked [OF t q])
  have c2: "step be (Receive (Some (set_role ro))) s = ?s1"
    by (rule receive_set_role [OF r p(1) d(1)])
  have c3: "tick be ?s1 = ?s1"
    using t q by (intro tick_blocked) simp_all
  have c4: "(simulation_task (tick be (step be ac s)) = AwaitingInput who \<or>
             simulation_task (tick be (step be ac s)) = Cancelled) \<and>
            outbound (tick be (step be ac s)) = outbound s" if n: "\<not> is_utterance ac"
  proof -
    note st = step_no_utterance [OF t q n, of be]
    from st have "tick be (step be ac s) = step be ac s"
      by (intro tick_waiting_outbound [where who = who]) simp_all
    with st show ?thesis by simp
  qed
  have a: "\<exists>a. agents s (key_of who) = Some a \<and> map_of (persona a) ''name'' = Some ?n"
    using p d by (cases who) simp_all
  then obtain a where a: "agents s (key_of who) = Some a" "map_of (persona a) ''name'' = Some ?n"
    by blast
  have a1: "\<exists>a. agents ?s1 (key_of who) = Some a \<and> map_of (persona a) ''name'' = Some ?n"
    using p d by (cases who) simp_all
  then obtain a1 where a1: "agents ?s1 (key_of who) = Some a1" "map_of (persona a1) ''name'' = Some ?n"
    by blast
  have w1: "websocket ?s1 = Some ws" "simulation_task ?s1 = AwaitingInput who"
      "user_input_queue ?s1 = []" "receiving ?s1" "outbound ?s1 = outbound s"
    using ws t q r by (simp_all add: outbound_def)
  note u1 = utterance_unblocks [OF w1(1) ws(2) a1 w1(2) w1(3) w1(4), of be t]
  note u0 = utterance_unblocks [OF ws a t q r, of be t]
  have c5: "simulation_task (tick be (step be (Receive (Some (user_input t)))
            (step be (Receive (Some (set_role ro))) s))) = Spoke who"
    using u1 [THEN conjunct1] by (simp only: c2)
  have c6: "outbound (tick be (step be (Receive (Some (user_input t)))
            (step be (Receive (Some (set_role ro))) s))) = outbound s @ [agent_speaks ?n (PStr t)]"
    using u1 [THEN conjunct2, THEN conjunct1] w1(5) by (simp only: c2)
  from c1 c2 c3 c4 c5 c6 u0 [THEN conjunct1] u0 [THEN conjunct2, THEN conjunct1]
  show ?thesis
    by (simp only: c2) blast
qed

lemma doe_waiting_facts:
  "websocket doe_waiting = Some \<lparr>is_open = True, sent = doe_spoken @ [request_user_input (PStr ''unknown'')]\<rparr>"
  "simulation_task doe_waiting = AwaitingInput DefenseLawyer"
  "user_input_queue doe_waiting = []"
  "receiving doe_waiting"
  "\<exists>p. agents doe_waiting ''prosecutor'' = Some p \<and>
       map_of (persona p) ''name'' = Some (PStr ''Ann'')"
  "\<exists>d. agents doe_waiting ''defense_lawyer'' = Some d \<and>
       map_of (persona d) ''name'' = Some (PStr ''Bob'')"
  by (simp_all add: doe_waiting_def doe_spoken_def run_defs doe_defs get_or_def)

theorem waiting_turn_witness:
  "simulation_task doe_waiting = AwaitingInput DefenseLawyer \<and>
   user_input_queue doe_waiting = [] \<and>
   tick steady doe_waiting = doe_waiting \<and>
   \<not> is_utterance (Receive (Some (set_role ''prosecutor''))) \<and>
   (simulation_task (tick steady (step steady (Receive (Some (set_role ''prosecutor''))) doe_waiting)) =
      AwaitingInput DefenseLawyer \<or>
    simulation_task (tick steady (step steady (Receive (Some (set_role ''prosecutor''))) doe_waiting)) =
      Cancelled) \<and>
   outbound (tick steady (step steady (Receive (Some (set_role ''prosecutor''))) doe_waiting)) =
     doe_spoken @ [request_user_input (PStr ''unknown'')] \<and>
   outbound (tick steady (step steady (Receive (Some (user_input ''Objection''))) doe_waiting)) =
     doe_spoken @ [request_user_input (PStr ''unknown''),
                   agent_speaks (PStr ''Bob'') (PStr ''Objection'')]"
proof -
  obtain p where p: "agents doe_waiting ''prosecutor'' = Some p"
      "map_of (persona p) ''name'' = Some (PStr ''Ann'')"
    using doe_waiting_facts(5) by blast
  obtain d where d: "agents doe_waiting ''defense_lawyer'' = Some d"
      "map_of (persona d) ''name'' = Some (PStr ''Bob'')"
    using doe_waiting_facts(6) by blast
  have ws: "is_open \<lparr>is_open = True, sent = doe_spoken @ [request_user_input (PStr ''unknown'')]\<rparr>"
    by simp
  have n: "\<not> is_utterance (Receive (Some (set_role ''prosecutor'')))"
    by (simp add: set_role_def)
  have ob: "outbound doe_waiting = doe_spoken @ [request_user_input (PStr ''unknown'')]"
    by (simp add: outbound_def doe_waiting_facts(1))
  note th = waiting_turn [OF doe_waiting_facts(1) ws p d doe_waiting_facts(2)
      doe_waiting_facts(3) doe_waiting_facts(4),
      of steady "''prosecutor''" "Receive (Some (set_role ''prosecutor''))" "''Objection''"]
  have c1: "tick steady doe_waiting = doe_waiting"
    using th [THEN conjunct1] .
  have c4: "(simulation_task (tick steady (step steady (Receive (Some (set_role ''prosecutor''))) doe_waiting)) =
      AwaitingInput DefenseLawyer \<or>
    simulation_task (tick steady (step steady (Receive (Some (set_role ''prosecutor''))) doe_waiting)) =
      Cancelled) \<and>
   outbound (tick steady (step steady (Receive (Some (set_role ''prosecutor''))) doe_waiting)) =
     doe_spoken @ [request_user_input (PStr ''unknown'')]"
    using th [THEN conjunct2, THEN conjunct2, THEN conjunct2, THEN conjunct1] n ob
    by (simp only:) blast
  have c8: "outbound (tick steady (step steady (Receive (Some (user_input ''Objection''))) doe_waiting)) =
     doe_spoken @ [request_user_input (PStr ''unknown''),
                   agent_speaks (PStr ''Bob'') (PStr ''Objection'')]"
    using th [THEN conjunct2, THEN conjunct2, THEN conjunct2, THEN conjunct2, THEN conjunct2,
              THEN conjunct2, THEN conjunct2] ob
    by (simp only:) simp
  from doe_waiting_facts(2) doe_waiting_facts(3) c1 n c4 c8 show ?thesis
    by (intro conjI) simp_all
qed

text \<open>The claim of C9 fails: an utterance names no role, and every utterance unblocks the
  suspended turn.  While the turn of the defense lawyer waits, the client gives up the
  role of the defense and takes the role of the prosecutor; the prosecutor is then the
  one participant in human-controlled mode.  The utterance the client sends next
  unblocks the turn of the defense lawyer and is emitted under the name of the defense
  lawyer, who is then autonomous.\<close>

theorem utterance_of_other_role_counterexample:
  "simulation_task (exec steady
      [Tick, Tick, Tick, Receive (Some (set_role ''defense'')), Tick,
       Receive (Some (set_role ''prosecutor''))] doe_session) = AwaitingInput DefenseLawyer \<and>
   map_option is_user_controlled (agents (exec steady
      [Tick, Tick, Tick, Receive (Some (set_role ''defense'')), Tick,
       Receive (Some (set_role ''prosecutor''))] doe_session) ''prosecutor'') = Some True \<and>
   map_option is_user_controlled (agents (exec steady
      [Tick, Tick, Tick, Receive (Some (set_role ''defense'')), Tick,
       Receive (Some (set_role ''prosecutor''))] doe_session) ''defense_lawyer'') = Some False \<and>
   simulation_task (exec steady
      [Tick, Tick, Tick, Receive (Some (set_role ''defense'')), Tick,
       Receive (Some (set_role ''prosecutor'')), Receive (Some (user_input ''Objection'')), Tick]
      doe_session) = Spoke DefenseLawyer \<and>
   outbound (exec steady
      [Tick, Tick, Tick, Receive (Some (set_role ''defense'')), Tick,
       Receive (Some (set_role ''prosecutor'')), Receive (Some (user_input ''Objection'')), Tick]
      doe_session) =
     doe_spoken @ [request_user_input (PStr ''unknown''),
                   agent_speaks (PStr ''Bob'') (PStr ''Objection'')]"
  by (simp add: doe_spoken_def run_defs doe_defs get_or_def)

section \<open>A run of autonomous participants\<close>

lemma on_scriptI:
  assumes "title (the_case s) = ti"
      and "agents s ''prosecutor'' = Some p" "map_of (persona p) ''name'' = Some pn"
      and "agents s ''defense_lawyer'' = Some d" "map_of (persona d) ''name'' = Some dn"
      and "emitted (simulation_task s) = Some (min 5 k)"
      and "outbound s = take k (run_events ti pn m1 dn m2)"
  shows "on_script ti pn dn k s"
  unfolding on_script_def using assms by blast

lemma on_script_cancelledI:
  assumes "title (the_case s) = ti"
      and "agents s ''prosecutor'' = Some p" "map_of (persona p) ''name'' = Some pn"
      and "agents s ''defense_lawyer'' = Some d" "map_of (persona d) ''name'' = Some dn"
      and "simulation_task s = Cancelled"
      and "outbound s = take n (run_events ti pn m1 dn m2)"
  shows "on_script ti pn dn k s"
  unfolding on_script_def using assms by blast

lemma calmI:
  assumes "websocket s = Some ws" "is_open ws"
      and "agents s ''prosecutor'' = Some p" "\<not> is_user_controlled p"
      and "agents s ''defense_lawyer'' = Some d" "\<not> is_user_controlled d"
  shows "calm s"
  using assms by (simp add: calm_def)

lemma calmE:
  assumes "calm s"
  obtains ws p d where "websocket s = Some ws" "is_open ws"
      "agents s ''prosecutor'' = Some p" "\<not> is_user_controlled p"
      "agents s ''defense_lawyer'' = Some d" "\<not> is_user_controlled d"
  using assms by (auto simp: calm_def split: option.splits)

lemma tick_send:
  assumes "websocket s = Some ws" "is_open ws"
  shows "simulation_task s = NotStarted \<Longrightarrow> tick be s =
           s\<lparr>websocket := Some (ws\<lparr>sent := sent ws @ [trial_starts (title (the_case s))]\<rparr>),
             simulation_task := SentTrialStarts\<rparr>"
    and "simulation_task s = SentTrialStarts \<Longrightarrow> tick be s =
           s\<lparr>phase := OPENING_STATEMENTS,
             websocket := Some (ws\<lparr>sent := sent ws @ [phase_starts ''Opening Statements'']\<rparr>),
             simulation_task := SentPhaseStarts\<rparr>"
  using assms by (simp_all add: tick_def send_event_def send_def)

lemma tick_autonomous:
  assumes ws: "websocket s = Some ws" "is_open ws"
      and p: "agents s ''prosecutor'' = Some p" "map_of (persona p) ''name'' = Some pn"
      and d: "agents s ''defense_lawyer'' = Some d" "map_of (persona d) ''name'' = Some dn"
      and a: "agents s (key_of who) = Some a" "map_of (persona a) ''name'' = Some n"
             "\<not> is_user_controlled a"
      and t: "simulation_task s = turn_start who"
  shows "\<exists>m a'. tick be s =
           s\<lparr>agents := (agents s)(key_of who \<mapsto> a'),
             requests := requests s @ [m],
             websocket := Some (ws\<lparr>sent := sent ws @
               [agent_speaks n (PStr (generate (llm_provider a) (be (length (requests s)) m)))]\<rparr>),
             simulation_task := Spoke who\<rparr> \<and> profile a' = profile a"
proof -
  let ?prompt = "context_prompt who (the_case s) pn dn"
  obtain built where b: "build_prompt (a\<lparr>memory := memory a @ [''Heard: '' @ ?prompt]\<rparr>) = Inr built"
    using build_prompt_named [of "a\<lparr>memory := memory a @ [''Heard: '' @ ?prompt]\<rparr>" n] a(2) by auto
  note tn = autonomous_turn [OF ws a b, of be]
  note tk = tick_turn [OF t p d tn]
  let ?a' = "a\<lparr>memory := memory a @ [''Heard: '' @ ?prompt,
                ''Said: '' @ generate (llm_provider a) (be (length (requests s)) built)]\<rparr>"
  have "tick be s =
           s\<lparr>agents := (agents s)(key_of who \<mapsto> ?a'),
             requests := requests s @ [built],
             websocket := Some (ws\<lparr>sent := sent ws @
               [agent_speaks n (PStr (generate (llm_provider a) (be (length (requests s)) built)))]\<rparr>),
             simulation_task := Spoke who\<rparr> \<and> profile ?a' = profile a"
    by (simp only: tk) simp
  then show ?thesis
    by blast
qed

lemma profile_fields:
  "profile a' = profile a \<Longrightarrow>
   persona a' = persona a \<and> is_user_controlled a' = is_user_controlled a"
  by (simp add: profile_def)

lemma tick_on_script:
  assumes i: "on_script ti pn dn k s" and c: "calm s"
  shows "on_script ti pn dn (Suc k) (tick be s) \<and> calm (tick be s) \<and>
         (simulation_task s \<noteq> Cancelled \<longrightarrow> simulation_task (tick be s) \<noteq> Cancelled)"
proof -
  from c obtain ws p d where ws: "websocket s = Some ws" "is_open ws"
      and p: "agents s ''prosecutor'' = Some p" and pa: "\<not> is_user_controlled p"
      and d: "agents s ''defense_lawyer'' = Some d" and da: "\<not> is_user_controlled d"
    by (rule calmE)
  from i p d have ti: "title (the_case s) = ti"
      and pn: "map_of (persona p) ''name'' = Some pn"
      and dn: "map_of (persona d) ''name'' = Some dn"
    by (auto simp: on_script_def)
  from i obtain m1 m2 where o:
      "(simulation_task s = Cancelled \<and> (\<exists>n. outbound s = take n (run_events ti pn m1 dn m2))) \<or>
       (emitted (simulation_task s) = Some (min 5 k) \<and>
        outbound s = take k (run_events ti pn m1 dn m2))"
    unfolding on_script_def by blast
  have ob: "outbound s = sent ws"
    using ws by (simp add: outbound_def)
  show ?thesis
  proof (cases "simulation_task s = Cancelled")
    case True
    then have e: "tick be s = s"
      by (rule tick_done(3))
    from o True obtain n where n: "outbound s = take n (run_events ti pn m1 dn m2)"
      by auto
    have "on_script ti pn dn (Suc k) s"
      by (rule on_script_cancelledI [OF ti p pn d dn True n])
    with c True show ?thesis
      by (simp only: e) simp
  next
    case False
    with o have em: "emitted (simulation_task s) = Some (min 5 k)"
        and out: "sent ws = take k (run_events ti pn m1 dn m2)"
      by (auto simp: ob)
    show ?thesis
    proof (cases "simulation_task s")
      case NotStarted
      with em have k: "k = 0"
        by (simp add: min_def split: if_splits)
      let ?s' = "s\<lparr>websocket := Some (ws\<lparr>sent := sent ws @ [trial_starts (title (the_case s))]\<rparr>),
                   simulation_task := SentTrialStarts\<rparr>"
      have e: "tick be s = ?s'"
        by (rule tick_send(1) [OF ws NotStarted])
      have 1: "on_script ti pn dn (Suc k) ?s'"
        by (rule on_scriptI [where p = p and d = d and ?m1.0 = m1 and ?m2.0 = m2])
           (use out in \<open>simp_all add: ti p d pn dn k outbound_def run_events_def\<close>)
      have 2: "calm ?s'"
        by (simp add: calm_def ws p d pa da)
      from 1 2 show ?thesis
        by (simp only: e) simp
    next
      case SentTrialStarts
      with em have k: "k = 1"
        by (simp add: min_def split: if_splits)
      let ?s' = "s\<lparr>phase := OPENING_STATEMENTS,
                   websocket := Some (ws\<lparr>sent := sent ws @ [phase_starts ''Opening Statements'']\<rparr>),
                   simulation_task := SentPhaseStarts\<rparr>"
      have e: "tick be s = ?s'"
        by (rule tick_send(2) [OF ws SentTrialStarts])
      have 1: "on_script ti pn dn (Suc k) ?s'"
        by (rule on_scriptI [where p = p and d = d and ?m1.0 = m1 and ?m2.0 = m2])
           (use out in \<open>simp_all add: ti p d pn dn k outbound_def run_events_def\<close>)
      have 2: "calm ?s'"
        by (simp add: calm_def ws p d pa da)
      from 1 2 show ?thesis
        by (simp only: e) simp
    next
      case SentPhaseStarts
      with em have k: "k = 2"
        by (simp add: min_def split: if_splits)
      have t: "simulation_task s = turn_start Prosecutor"
        using SentPhaseStarts by simp
      have a: "agents s (key_of Prosecutor) = Some p"
        using p by simp
      from tick_autonomous [OF ws p pn d dn a pn pa t, of be]
      obtain m a' where e: "tick be s =
           s\<lparr>agents := (agents s)(key_of Prosecutor \<mapsto> a'),
             requests := requests s @ [m],
             websocket := Some (ws\<lparr>sent := sent ws @
               [agent_speaks pn (PStr (generate (llm_provider p) (be (length (requests s)) m)))]\<rparr>),
             simulation_task := Spoke Prosecutor\<rparr>" and pf: "profile a' = profile p"
        by blast
      note f = profile_fields [OF pf]
      let ?m = "PStr (generate (llm_provider p) (be (length (requests s)) m))"
      have 1: "on_script ti pn dn (Suc k) (tick be s)"
        by (rule on_scriptI [where p = a' and d = d and ?m1.0 = ?m and ?m2.0 = m2])
           (use out in \<open>simp_all add: e ti p d pn dn k f outbound_def run_events_def\<close>)
      have 2: "calm (tick be s)"
        by (simp add: calm_def e ws p d pa da f)
      from 1 2 show ?thesis
        by (simp add: e)
    next
      case (Spoke who)
      show ?thesis
      proof (cases who)
        case Prosecutor
        with em Spoke have k: "k = 3"
          by (simp add: min_def split: if_splits)
        have t: "simulation_task s = turn_start DefenseLawyer"
          using Spoke Prosecutor by simp
        have a: "agents s (key_of DefenseLawyer) = Some d"
          using d by simp
        from tick_autonomous [OF ws p pn d dn a dn da t, of be]
        obtain m a' where e: "tick be s =
             s\<lparr>agents := (agents s)(key_of DefenseLawyer \<mapsto> a'),
               requests := requests s @ [m],
               websocket := Some (ws\<lparr>sent := sent ws @
                 [agent_speaks dn (PStr (generate (llm_provider d) (be (length (requests s)) m)))]\<rparr>),
               simulation_task := Spoke DefenseLawyer\<rparr>" and pf: "profile a' = profile d"
          by blast
        note f = profile_fields [OF pf]
        let ?m = "PStr (generate (llm_provider d) (be (length (requests s)) m))"
        have 1: "on_script ti pn dn (Suc k) (tick be s)"
          by (rule on_scriptI [where p = p and d = a' and ?m1.0 = m1 and ?m2.0 = ?m])
             (use out in \<open>simp_all add: e ti p d pn dn k f outbound_def run_events_def\<close>)
        have 2: "calm (tick be s)"
          by (simp add: calm_def e ws p d pa da f)
        from 1 2 show ?thesis
          by (simp add: e)
      next
        case DefenseLawyer
        with em Spoke have k: "k = 4"
          by (simp add: min_def split: if_splits)
        let ?s' = "s\<lparr>websocket := Some (ws\<lparr>sent := sent ws @ [trial_finished]\<rparr>),
                     simulation_task := Finished\<rparr>"
        have t: "simulation_task s = Spoke DefenseLawyer"
          using Spoke DefenseLawyer by simp
        have e: "tick be s = ?s'"
          by (rule tick_finish [OF t ws])
        have 1: "on_script ti pn dn (Suc k) ?s'"
          by (rule on_scriptI [where p = p and d = d and ?m1.0 = m1 and ?m2.0 = m2])
             (use out in \<open>simp_all add: ti p d pn dn k outbound_def run_events_def\<close>)
        have 2: "calm ?s'"
          by (simp add: calm_def ws p d pa da)
        from 1 2 show ?thesis
          by (simp only: e) simp
      qed
    next
      case Finished
      with em have k: "5 \<le> k"
        by (simp add: min_def split: if_splits)
      have e: "tick be s = s"
        using Finished by (rule tick_done(2))
      have 1: "on_script ti pn dn (Suc k) s"
        by (rule on_scriptI [where p = p and d = d and ?m1.0 = m1 and ?m2.0 = m2])
           (use out k in \<open>simp_all add: ti p d pn dn Finished ob run_events_def\<close>)
      from 1 c Finished show ?thesis
        by (simp only: e) simp
    next
      case (AwaitingInput who)
      with em show ?thesis by simp
    next
      case (Failed x)
      with em show ?thesis by simp
    next
      case Cancelled
      with False show ?thesis by simp
    qed
  qed
qed

lemma on_script_frame:
  assumes i: "on_script ti pn dn k s"
      and c: "the_case s' = the_case s"
      and a: "\<And>x. map_option persona (agents s' x) = map_option persona (agents s x)"
      and o: "outbound s' = outbound s"
      and t: "simulation_task s' = simulation_task s \<or>
              simulation_task s' = cancel (simulation_task s)"
  shows "on_script ti pn dn k s'"
proof -
  from i obtain p d where ti: "title (the_case s) = ti"
      and p: "agents s ''prosecutor'' = Some p" "map_of (persona p) ''name'' = Some pn"
      and d: "agents s ''defense_lawyer'' = Some d" "map_of (persona d) ''name'' = Some dn"
    unfolding on_script_def by blast
  from i obtain m1 m2 where e:
      "(simulation_task s = Cancelled \<and> (\<exists>n. outbound s = take n (run_events ti pn m1 dn m2))) \<or>
       (emitted (simulation_task s) = Some (min 5 k) \<and>
        outbound s = take k (run_events ti pn m1 dn m2))"
    unfolding on_script_def by blast
  from a [of "''prosecutor''"] p obtain p' where
      p': "agents s' ''prosecutor'' = Some p'" "map_of (persona p') ''name'' = Some pn"
    by (cases "agents s' ''prosecutor''") auto
  from a [of "''defense_lawyer''"] d obtain d' where
      d': "agents s' ''defense_lawyer'' = Some d'" "map_of (persona d') ''name'' = Some dn"
    by (cases "agents s' ''defense_lawyer''") auto
  have ti': "title (the_case s') = ti"
    using ti c by simp
  have "(simulation_task s' = Cancelled \<and> (\<exists>n. outbound s' = take n (run_events ti pn m1 dn m2))) \<or>
        (emitted (simulation_task s') = Some (min 5 k) \<and>
         outbound s' = take k (run_events ti pn m1 dn m2))"
    using e t o by (cases "simulation_task s") auto
  with ti' p' d' show ?thesis
    unfolding on_script_def by blast
qed

lemma set_both_personas:
  "set_both k1 b1 k2 b2 s = (r, s') \<Longrightarrow>
   the_case s' = the_case s \<and> map_option persona (agents s' x) = map_option persona (agents s x)"
  by (auto simp: set_both_def set_user_controlled_def split: option.splits)

lemma on_message_personas:
  assumes "on_message data s = (r, s')"
  shows "the_case s' = the_case s \<and>
         map_option persona (agents s' x) = map_option persona (agents s x)"
proof -
  consider (roles) k1 b1 k2 b2 where "on_message data s = set_both k1 b1 k2 b2 s"
    | (raised) e where "on_message data s = (Inl e, s)"
    | (queued) m where "on_message data s = (Inr (), s\<lparr>user_input_queue := user_input_queue s @ [m]\<rparr>)"
    | (ignored) "on_message data s = (Inr (), s)"
    using on_message_cases [of data s] by blast
  then show ?thesis
  proof cases
    case roles
    with assms have "set_both k1 b1 k2 b2 s = (r, s')" by simp
    from set_both_personas [OF this] show ?thesis by simp
  next
    case raised
    with assms show ?thesis by simp
  next
    case queued
    with assms show ?thesis by auto
  next
    case ignored
    with assms show ?thesis by simp
  qed
qed

lemma handler_exit_on_script:
  assumes i: "on_script ti pn dn k s"
      and c: "the_case s' = the_case s"
      and a: "\<And>x. map_option persona (agents s' x) = map_option persona (agents s x)"
      and o: "websocket s' = websocket s"
      and t: "simulation_task s' = simulation_task s"
  shows "on_script ti pn dn k (handler_exit s')"
  by (rule on_script_frame [OF i]) (simp_all add: handler_exit_def outbound_def c a o t)

lemma step_on_script:
  assumes i: "on_script ti pn dn k s" and n: "ac \<noteq> Tick"
  shows "on_script ti pn dn k (step be ac s)"
proof (cases ac)
  case Tick
  with n show ?thesis by simp
next
  case (Receive m)
  show ?thesis
  proof (cases "receiving s")
    case False
    with Receive i show ?thesis by simp
  next
    case True
    show ?thesis
    proof (cases m)
      case None
      have "on_script ti pn dn k (handler_exit s)"
        by (rule handler_exit_on_script [OF i]) simp_all
      with Receive True None show ?thesis by simp
    next
      case (Some data)
      obtain r s1 where m: "on_message data s = (r, s1)"
        by (cases "on_message data s")
      note f = on_message_frame [OF m]
      note g = on_message_personas [OF m]
      have 1: "on_script ti pn dn k s1"
        by (rule on_script_frame [OF i]) (simp_all add: f g outbound_def)
      have 2: "on_script ti pn dn k (handler_exit s1)"
        by (rule handler_exit_on_script [OF i]) (simp_all add: f g)
      from 1 2 Receive True Some m show ?thesis
        by (cases r) simp_all
    qed
  qed
next
  case Disconnect
  have "on_script ti pn dn k
          (s\<lparr>websocket := map_option (\<lambda>ws. ws\<lparr>is_open := False\<rparr>) (websocket s)\<rparr>)"
    by (rule on_script_frame [OF i]) (simp_all add: outbound_def split: option.splits)
  with Disconnect show ?thesis by simp
next
  case EndOfStream
  have "on_script ti pn dn k (handler_exit s)"
    by (rule handler_exit_on_script [OF i]) simp_all
  with EndOfStream i show ?thesis by simp
qed

lemma exec_on_script:
  "throughout be acts s \<Longrightarrow> on_script ti pn dn k s \<Longrightarrow>
   on_script ti pn dn (k + count_list acts Tick) (exec be acts s)"
proof (induction acts arbitrary: s k)
  case Nil
  then show ?case by simp
next
  case (Cons a as)
  from Cons.prems(1) have c: "calm s" and th: "throughout be as (step be a s)"
    by simp_all
  show ?case
  proof (cases "a = Tick")
    case True
    from tick_on_script [OF Cons.prems(2) c, of be]
    have "on_script ti pn dn (Suc k) (step be a s)"
      using True by simp
    from Cons.IH [OF th this] True show ?thesis by simp
  next
    case False
    from Cons.IH [OF th step_on_script [OF Cons.prems(2) False]] False show ?thesis by simp
  qed
qed

lemma ticks_on_script:
  "on_script ti pn dn k s \<Longrightarrow> calm s \<Longrightarrow> simulation_task s \<noteq> Cancelled \<Longrightarrow>
   throughout be (replicate n Tick) s \<and>
   simulation_task (exec be (replicate n Tick) s) \<noteq> Cancelled"
proof (induction n arbitrary: s k)
  case 0
  then show ?case by simp
next
  case (Suc n)
  note st = tick_on_script [OF Suc.prems(1) Suc.prems(2), of be]
  from st Suc.prems(3) have 1: "on_script ti pn dn (Suc k) (tick be s)" and 2: "calm (tick be s)"
      and 3: "simulation_task (tick be s) \<noteq> Cancelled"
    by simp_all
  from Suc.IH [OF 1 2 3] Suc.prems(2) show ?case by simp
qed

lemma count_ticks: "count_list (replicate n Tick) Tick = n"
  by (induction n) simp_all

lemma throughout_calm: "throughout be acts s \<Longrightarrow> calm s"
  by (cases acts) simp_all

lemma emitted_all: "emitted t = Some 5 \<Longrightarrow> t = Finished"
  by (cases t rule: emitted.cases) simp_all

text \<open>
  C2.  A fresh session: nothing has been sent, the simulation task has not started, the
  prosecutor and the defense lawyer are there with their names.  Along a schedule of the
  event loop (runs of the simulation task, inbound messages, the end of the inbound
  stream) the channel is open and both lawyers are autonomous in every state.  Then, for
  some statements \<open>m1\<close> and \<open>m2\<close>, the outbound stream is at all times an initial part of
  \<open>trial_starts\<close>, \<open>phase_starts\<close> of the opening statements, \<open>agent_speaks\<close> of the
  prosecutor, \<open>agent_speaks\<close> of the defense lawyer, \<open>trial_finished\<close>; when the task has
  finished it is exactly these five events; unless the task was cancelled, every run of
  the task emitted the next event, and the task has finished once it ran five times.
  Five runs of the task are such a schedule, and they finish the task.
\<close>

theorem autonomous_run:
  assumes ws: "websocket s = Some ws" "sent ws = []"
      and p: "agents s ''prosecutor'' = Some p" "map_of (persona p) ''name'' = Some pn"
      and d: "agents s ''defense_lawyer'' = Some d" "map_of (persona d) ''name'' = Some dn"
      and t: "simulation_task s = NotStarted"
      and c: "throughout be acts s"
  shows "(\<exists>m1 m2 n. outbound (exec be acts s) =
            take n (run_events (title (the_case s)) pn m1 dn m2)) \<and>
         (simulation_task (exec be acts s) = Finished \<longrightarrow>
            (\<exists>m1 m2. outbound (exec be acts s) = run_events (title (the_case s)) pn m1 dn m2)) \<and>
         (simulation_task (exec be acts s) \<noteq> Cancelled \<longrightarrow>
            (\<exists>m1 m2. outbound (exec be acts s) =
               take (count_list acts Tick) (run_events (title (the_case s)) pn m1 dn m2)) \<and>
            (5 \<le> count_list acts Tick \<longrightarrow> simulation_task (exec be acts s) = Finished)) \<and>
         throughout be (replicate 5 Tick) s \<and>
         simulation_task (exec be (replicate 5 Tick) s) = Finished"
proof -
  let ?ti = "title (the_case s)"
  let ?k = "count_list acts Tick"
  let ?s = "exec be acts s"
  have i: "on_script ?ti pn dn 0 s"
    by (rule on_scriptI [OF refl p d, where ?m1.0 = PNone and ?m2.0 = PNone])
       (simp_all add: t outbound_def ws)
  from exec_on_script [OF c i] have f: "on_script ?ti pn dn ?k ?s"
    by simp
  then obtain m1 m2 where e:
      "(simulation_task ?s = Cancelled \<and> (\<exists>n. outbound ?s = take n (run_events ?ti pn m1 dn m2))) \<or>
       (emitted (simulation_task ?s) = Some (min 5 ?k) \<and>
        outbound ?s = take ?k (run_events ?ti pn m1 dn m2))"
    unfolding on_script_def by blast
  have 1: "\<exists>m1 m2 n. outbound ?s = take n (run_events ?ti pn m1 dn m2)"
    using e by blast
  have 2: "\<exists>m1 m2. outbound ?s = run_events ?ti pn m1 dn m2" if "simulation_task ?s = Finished"
  proof -
    from e that have "5 \<le> ?k" and "outbound ?s = take ?k (run_events ?ti pn m1 dn m2)"
      by (auto simp: min_def split: if_splits)
    then have "outbound ?s = run_events ?ti pn m1 dn m2"
      by (simp add: run_events_def)
    then show ?thesis by blast
  qed
  have 3: "(\<exists>m1 m2. outbound ?s = take ?k (run_events ?ti pn m1 dn m2)) \<and>
           (5 \<le> ?k \<longrightarrow> simulation_task ?s = Finished)" if "simulation_task ?s \<noteq> Cancelled"
  proof -
    from e that have em: "emitted (simulation_task ?s) = Some (min 5 ?k)"
        and o: "outbound ?s = take ?k (run_events ?ti pn m1 dn m2)"
      by auto
    from em have "5 \<le> ?k \<longrightarrow> simulation_task ?s = Finished"
      by (auto simp: min_def intro: emitted_all)
    with o show ?thesis by blast
  qed
  have cs: "calm s"
    by (rule throughout_calm [OF c])
  have nc: "simulation_task s \<noteq> Cancelled"
    using t by simp
  note tk = ticks_on_script [OF i cs nc, of be 5]
  from exec_on_script [OF tk [THEN conjunct1] i]
  have "on_script ?ti pn dn 5 (exec be (replicate 5 Tick) s)"
    by (simp add: count_ticks)
  with tk [THEN conjunct2] have "emitted (simulation_task (exec be (replicate 5 Tick) s)) = Some 5"
    unfolding on_script_def by auto
  then have 5: "simulation_task (exec be (replicate 5 Tick) s) = Finished"
    by (rule emitted_all)
  from 1 2 3 tk [THEN conjunct1] 5 show ?thesis
    by blast
qed

lemma doe_schedule_facts:
  "throughout steady doe_schedule doe_session"
  "simulation_task (exec steady doe_schedule doe_session) = Finished"
  "outbound (exec steady doe_schedule doe_session) =
     run_events (PStr ''State v. Doe'') (PStr ''Ann'') (PStr ''I object.'') (PStr ''Bob'')
       (PStr ''I object.'')"
  "count_list doe_schedule Tick = 5"
  by (simp_all add: doe_schedule_def calm_def run_events_def run_defs doe_defs)

theorem autonomous_run_witness:
  "throughout steady doe_schedule doe_session \<and>
   simulation_task (exec steady doe_schedule doe_session) = Finished \<and>
   simulation_task (exec steady doe_schedule doe_session) \<noteq> Cancelled \<and>
   5 \<le> count_list doe_schedule Tick \<and>
   (\<exists>m1 m2. outbound (exec steady doe_schedule doe_session) =
      run_events (PStr ''State v. Doe'') (PStr ''Ann'') m1 (PStr ''Bob'') m2) \<and>
   outbound (exec steady doe_schedule doe_session) =
     run_events (PStr ''State v. Doe'') (PStr ''Ann'') (PStr ''I object.'') (PStr ''Bob'')
       (PStr ''I object.'') \<and>
   simulation_task (exec steady (replicate 5 Tick) doe_session) = Finished"
proof -
  have ws: "websocket doe_session = Some \<lparr>is_open = True, sent = []\<rparr>"
      "sent \<lparr>is_open = True, sent = []\<rparr> = []"
    by (simp_all add: doe_session_def)
  have p: "agents doe_session ''prosecutor'' = Some (prosecutor_of (person (PStr ''Ann'')))"
      "map_of (persona (prosecutor_of (person (PStr ''Ann'')))) ''name'' = Some (PStr ''Ann'')"
    by (simp_all add: doe_defs)
  have d: "agents doe_session ''defense_lawyer'' = Some (defense_lawyer_of (person (PStr ''Bob'')))"
      "map_of (persona (defense_lawyer_of (person (PStr ''Bob'')))) ''name'' = Some (PStr ''Bob'')"
    by (simp_all add: doe_defs)
  have t: "simulation_task doe_session = NotStarted"
    by (simp add: doe_session_def)
  have ti: "title (the_case doe_session) = PStr ''State v. Doe''"
    by (simp add: doe_session_def)
  note th = autonomous_run [OF ws p d t doe_schedule_facts(1)]
  have f: "simulation_task (exec steady doe_schedule doe_session) = Finished"
    by (rule doe_schedule_facts(2))
  have nc: "simulation_task (exec steady doe_schedule doe_session) \<noteq> Cancelled"
    by (simp add: f)
  have k: "5 \<le> count_list doe_schedule Tick"
    by (simp add: doe_schedule_facts(4))
  have c2: "\<exists>m1 m2. outbound (exec steady doe_schedule doe_session) =
      run_events (PStr ''State v. Doe'') (PStr ''Ann'') m1 (PStr ''Bob'') m2"
    using th [THEN conjunct2, THEN conjunct1] f ti by (simp only:)
  have c5: "simulation_task (exec steady (replicate 5 Tick) doe_session) = Finished"
    using th [THEN conjunct2, THEN conjunct2, THEN conjunct2, THEN conjunct2] .
  from doe_schedule_facts(1) f nc k c2 doe_schedule_facts(3) c5 show ?thesis
    by (intro conjI)
qed

end
